theory Spec2Isabelle
  imports Complex_Main
begin

section \<open>The Web Audio objects the page drives\<close>

text \<open>
  The page (\<^verbatim>\<open>src/app/page.tsx\<close>) keeps its audio engine in four React refs and two
  pieces of React state, and talks to the browser's Web Audio API. The API objects are
  modelled as records inside one audio context, which is the store: a filter node or a
  source node is named by its index in the context's node lists, so that two references
  to one node see the same updates. A JavaScript \<^verbatim>\<open>number\<close> is a \<^typ>\<open>real\<close>; the
  only numbers of the source are small integers and the literal \<^verbatim>\<open>0.12\<close>.
\<close>

type_synonym number = real

datatype error = TypeError | InvalidStateError | NotAllowedError | NetworkError | EncodingError

text \<open>What an \<^verbatim>\<open>async\<close> function's promise resolves to, or a function returns.\<close>

datatype js_value = Undefined | Boolean bool

text \<open>
  An \<^verbatim>\<open>AudioParam\<close>: the value last assigned to \<^verbatim>\<open>.value\<close>, and the automation
  commands scheduled on it, oldest first. \<^verbatim>\<open>setTargetAtTime(target, startTime,
  timeConstant)\<close> asks the audio thread for an exponential approach to \<^verbatim>\<open>target\<close>
  starting at \<^verbatim>\<open>startTime\<close>; it assigns nothing to \<^verbatim>\<open>.value\<close>.
\<close>

datatype automation = SetTargetAtTime number number number

record audio_param =
  param_value :: number
  param_events :: "automation list"

datatype biquad_type =
  Lowpass | Highpass | Bandpass | Lowshelf | Highshelf | Peaking | Notch | Allpass

record biquad_filter =
  flt_type :: biquad_type
  flt_frequency :: audio_param
  flt_Q :: audio_param
  flt_gain :: audio_param

datatype audio_buffer = AudioBuffer nat

record buffer_source =
  src_buffer :: "audio_buffer option"
  src_loop :: bool
  src_started :: bool
  src_stopped :: bool

datatype context_state = Suspended | Running | Closed

datatype node = FilterNode nat | SourceNode nat | Destination

record audio_context =
  ctx_state :: context_state
  currentTime :: number
  ctx_filters :: "biquad_filter list"
  ctx_sources :: "buffer_source list"
  ctx_connections :: "(node \<times> node) list"

definition new_AudioContext :: "context_state \<Rightarrow> audio_context" where
  "new_AudioContext st =
     \<lparr>ctx_state = st, currentTime = 0, ctx_filters = [], ctx_sources = [],
      ctx_connections = []\<rparr>"

text \<open>\<^verbatim>\<open>ctx.createBiquadFilter()\<close>: a new node with the API's defaults.\<close>

definition default_param :: "number \<Rightarrow> audio_param" where
  "default_param v = \<lparr>param_value = v, param_events = []\<rparr>"

definition default_biquad :: biquad_filter where
  "default_biquad =
     \<lparr>flt_type = Lowpass, flt_frequency = default_param 350, flt_Q = default_param 1,
      flt_gain = default_param 0\<rparr>"

definition createBiquadFilter :: "audio_context \<Rightarrow> nat \<times> audio_context" where
  "createBiquadFilter ctx =
     (length (ctx_filters ctx), ctx\<lparr>ctx_filters := ctx_filters ctx @ [default_biquad]\<rparr>)"

definition update_filter ::
  "nat \<Rightarrow> (biquad_filter \<Rightarrow> biquad_filter) \<Rightarrow> audio_context \<Rightarrow> audio_context" where
  "update_filter i f ctx = ctx\<lparr>ctx_filters := (ctx_filters ctx)[i := f (ctx_filters ctx ! i)]\<rparr>"

definition set_value :: "number \<Rightarrow> audio_param \<Rightarrow> audio_param" where
  "set_value v p = p\<lparr>param_value := v\<rparr>"

definition setTargetAtTime :: "number \<Rightarrow> number \<Rightarrow> number \<Rightarrow> audio_param \<Rightarrow> audio_param" where
  "setTargetAtTime target startTime timeConstant p =
     p\<lparr>param_events := param_events p @ [SetTargetAtTime target startTime timeConstant]\<rparr>"

text \<open>\<^verbatim>\<open>a.connect(b)\<close>: the connections are kept in the order they were made.\<close>

definition connect :: "node \<Rightarrow> node \<Rightarrow> audio_context \<Rightarrow> audio_context" where
  "connect a b ctx = ctx\<lparr>ctx_connections := ctx_connections ctx @ [(a, b)]\<rparr>"

text \<open>\<^verbatim>\<open>ctx.createBufferSource()\<close>, and the source node's \<^verbatim>\<open>start()\<close> and \<^verbatim>\<open>stop()\<close>.
  \<^verbatim>\<open>stop()\<close> throws on a node that was never started.\<close>

definition createBufferSource :: "audio_context \<Rightarrow> nat \<times> audio_context" where
  "createBufferSource ctx =
     (length (ctx_sources ctx),
      ctx\<lparr>ctx_sources := ctx_sources ctx @
        [\<lparr>src_buffer = None, src_loop = False, src_started = False, src_stopped = False\<rparr>]\<rparr>)"

definition update_source ::
  "nat \<Rightarrow> (buffer_source \<Rightarrow> buffer_source) \<Rightarrow> audio_context \<Rightarrow> audio_context" where
  "update_source i f ctx = ctx\<lparr>ctx_sources := (ctx_sources ctx)[i := f (ctx_sources ctx ! i)]\<rparr>"

definition start_source :: "nat \<Rightarrow> audio_context \<Rightarrow> error + audio_context" where
  "start_source i ctx =
     (if i < length (ctx_sources ctx) \<and> \<not> src_started (ctx_sources ctx ! i)
      then Inr (update_source i (\<lambda>n. n\<lparr>src_started := True\<rparr>) ctx)
      else Inl InvalidStateError)"

definition stop_source :: "nat \<Rightarrow> audio_context \<Rightarrow> error + audio_context" where
  "stop_source i ctx =
     (if i < length (ctx_sources ctx) \<and> src_started (ctx_sources ctx ! i)
      then Inr (update_source i (\<lambda>n. n\<lparr>src_stopped := True\<rparr>) ctx)
      else Inl InvalidStateError)"

text \<open>
  \<^verbatim>\<open>ctx.resume()\<close>: the promise rejects on a closed context, or when the platform
  refuses (the first argument, \<open>Some e\<close>); otherwise the context runs.
\<close>

definition resume :: "error option \<Rightarrow> audio_context \<Rightarrow> error + audio_context" where
  "resume refusal ctx =
     (if ctx_state ctx = Closed then Inl InvalidStateError
      else case refusal of Some e \<Rightarrow> Inl e | None \<Rightarrow> Inr (ctx\<lparr>ctx_state := Running\<rparr>))"

section \<open>The chart's series (\<^verbatim>\<open>EQGraph\<close>, lines 37--46)\<close>

definition flatData :: "number list" where
  "flatData = [0, 0, 0, 0, 0, 0]"

definition bassHeavyData :: "number list" where
  "bassHeavyData = [12, 10, 4, -6, -8, -12]"

definition labels :: "string list" where
  "labels = [''60Hz'', ''150Hz'', ''250Hz'', ''1kHz'', ''4kHz'', ''15kHz'']"

definition EQGraph_data :: "bool \<Rightarrow> number list" where
  "EQGraph_data isBassHeavy = (if isBassHeavy then bassHeavyData else flatData)"

section \<open>The page's state\<close>

text \<open>
  \<open>loading\<close> is where the asynchronous \<^verbatim>\<open>loadAudio\<close> stands: waiting for the fetch,
  waiting for the decoder, or finished (on any of its exits). \<open>mounted\<close> is the
  effect's local flag; \<open>console_errors\<close> is what \<^verbatim>\<open>console.error\<close> has printed.
  \<open>pending_resumes\<close> are the calls of \<^verbatim>\<open>togglePlay\<close> that are suspended at
  \<^verbatim>\<open>await ctx.resume()\<close>, oldest first, each with the buffer it read before the await.
\<close>

datatype load_stage = Fetching | Decoding | Settled

record page =
  eqOn :: bool
  isPlaying :: bool
  audioContextRef :: "audio_context option"
  sourceRef :: "nat option"
  filtersRef :: "nat list"
  bufferRef :: "audio_buffer option"
  mounted :: bool
  loading :: load_stage
  console_errors :: "error list"
  pending_resumes :: "audio_buffer list"

text \<open>
  The page after its first render: \<^verbatim>\<open>loadAudio()\<close> has been called and awaits the
  fetch, and the gain effect has run once and returned at its guard (there is no context
  yet).
\<close>

definition Page_mounted :: page where
  "Page_mounted =
     \<lparr>eqOn = False, isPlaying = False, audioContextRef = None, sourceRef = None,
      filtersRef = [], bufferRef = None, mounted = True, loading = Fetching,
      console_errors = [], pending_resumes = []\<rparr>"

section \<open>\<^verbatim>\<open>loadAudio\<close> (lines 113--149)\<close>

definition freqs :: "number list" where
  "freqs = [60, 150, 250, 1000, 4000, 15000]"

text \<open>The callback of \<^verbatim>\<open>freqs.map\<close> (lines 130--137).\<close>

definition make_filter :: "number \<Rightarrow> audio_context \<Rightarrow> nat \<times> audio_context" where
  "make_filter f ctx =
     (let (flt, ctx) = createBiquadFilter ctx;
          ctx = update_filter flt (\<lambda>b. b\<lparr>flt_type := Peaking\<rparr>) ctx;
          ctx = update_filter flt (\<lambda>b. b\<lparr>flt_frequency := set_value f (flt_frequency b)\<rparr>) ctx;
          ctx = update_filter flt (\<lambda>b. b\<lparr>flt_Q := set_value 1 (flt_Q b)\<rparr>) ctx;
          ctx = update_filter flt (\<lambda>b. b\<lparr>flt_gain := set_value 0 (flt_gain b)\<rparr>) ctx
      in (flt, ctx))"

fun map_filters :: "number list \<Rightarrow> audio_context \<Rightarrow> nat list \<times> audio_context" where
  "map_filters [] ctx = ([], ctx)"
| "map_filters (f # fs) ctx =
     (let (flt, ctx) = make_filter f ctx;
          (flts, ctx) = map_filters fs ctx
      in (flt # flts, ctx))"

text \<open>
  \<^verbatim>\<open>filters.reduce((prev, curr) => { prev.connect(curr); return curr; })\<close> with no
  initial value: the first element is the first \<open>prev\<close>, and an empty array throws a
  \<^verbatim>\<open>TypeError\<close>. Then the last filter is connected to the destination.
\<close>

fun reduce_connect :: "nat \<Rightarrow> nat list \<Rightarrow> audio_context \<Rightarrow> nat \<times> audio_context" where
  "reduce_connect prev [] ctx = (prev, ctx)"
| "reduce_connect prev (cur # others) ctx =
     reduce_connect cur others (connect (FilterNode prev) (FilterNode cur) ctx)"

definition chain_filters :: "nat list \<Rightarrow> audio_context \<Rightarrow> error + audio_context" where
  "chain_filters filters ctx =
     (case filters of
        [] \<Rightarrow> Inl TypeError
      | f # others \<Rightarrow>
          (let (final, ctx) = reduce_connect f others ctx
           in Inr (connect (FilterNode (last filters)) Destination ctx)))"

text \<open>
  \<^verbatim>\<open>loadAudio\<close> runs in two pieces, each without interruption. The first runs when
  \<^verbatim>\<open>fetch\<close> and \<^verbatim>\<open>arrayBuffer()\<close> have settled and the context's constructor has
  run: \<open>Inl e\<close> when one of them failed (the \<^verbatim>\<open>catch\<close> logs it), \<open>Inr st\<close> when a
  new context exists, in state \<open>st\<close>. The second runs when \<^verbatim>\<open>decodeAudioData\<close> has
  settled: \<open>Inl e\<close> when it rejected, \<open>Inr buffer\<close> otherwise. In the second piece the
  local \<^verbatim>\<open>ctx\<close> is the object \<^verbatim>\<open>audioContextRef.current\<close> holds (nothing else
  assigns that ref), so the piece reads it from the ref and writes it back.
\<close>

definition loadAudio_fetched :: "error + context_state \<Rightarrow> page \<Rightarrow> page" where
  "loadAudio_fetched r s =
     (case r of
        Inl e \<Rightarrow> s\<lparr>loading := Settled, console_errors := console_errors s @ [e]\<rparr>
      | Inr st \<Rightarrow>
          if \<not> mounted s then s\<lparr>loading := Settled\<rparr>
          else s\<lparr>audioContextRef := Some (new_AudioContext st), loading := Decoding\<rparr>)"

definition loadAudio_decoded :: "error + audio_buffer \<Rightarrow> page \<Rightarrow> page" where
  "loadAudio_decoded r s =
     (case r of
        Inl e \<Rightarrow> s\<lparr>loading := Settled, console_errors := console_errors s @ [e]\<rparr>
      | Inr buffer \<Rightarrow>
          if \<not> mounted s then s\<lparr>loading := Settled\<rparr>
          else
            (case audioContextRef s of
               None \<Rightarrow> s\<lparr>loading := Settled\<rparr>
             | Some ctx \<Rightarrow>
                 (let s = s\<lparr>bufferRef := Some buffer\<rparr>;
                      (filters, ctx) = map_filters freqs ctx
                  in case chain_filters filters ctx of
                       Inl e \<Rightarrow>
                         s\<lparr>audioContextRef := Some ctx, loading := Settled,
                           console_errors := console_errors s @ [e]\<rparr>
                     | Inr ctx \<Rightarrow>
                         s\<lparr>audioContextRef := Some ctx, filtersRef := filters,
                           loading := Settled\<rparr>)))"

text \<open>
  The effect's cleanup (lines 152--158), run when the page unmounts. A source node lives
  in its context, so where the ref holds no context there is no source to stop.
\<close>

definition cleanup :: "page \<Rightarrow> page" where
  "cleanup s =
     (let s = s\<lparr>mounted := False\<rparr>
      in case audioContextRef s of
           None \<Rightarrow> s
         | Some ctx \<Rightarrow>
             (let ctx = (case sourceRef s of
                           None \<Rightarrow> ctx
                         | Some src \<Rightarrow>
                             (case stop_source src ctx of Inl e \<Rightarrow> ctx | Inr ctx' \<Rightarrow> ctx'))
              in s\<lparr>audioContextRef := Some (ctx\<lparr>ctx_state := Closed\<rparr>)\<rparr>))"

section \<open>The gain effect (lines 162--172)\<close>

definition gains_for :: "bool \<Rightarrow> number list" where
  "gains_for on = (if on then [12, 10, 4, -6, -8, -12] else [0, 0, 0, 0, 0, 0])"

text \<open>
  \<^verbatim>\<open>filtersRef.current.forEach((filter, i) => filter.gain.setTargetAtTime(gains[i], now, 0.12))\<close>.
  Past the end of \<^verbatim>\<open>gains\<close> the target would be \<^verbatim>\<open>undefined\<close>, which
  \<^verbatim>\<open>setTargetAtTime\<close> refuses with a \<^verbatim>\<open>TypeError\<close>; the loop stops there.
\<close>

fun retarget ::
  "nat list \<Rightarrow> nat \<Rightarrow> number list \<Rightarrow> number \<Rightarrow> audio_context \<Rightarrow> error option \<times> audio_context" where
  "retarget [] i gains now ctx = (None, ctx)"
| "retarget (flt # others) i gains now ctx =
     (if i < length gains
      then retarget others (Suc i) gains now
             (update_filter flt
                (\<lambda>b. b\<lparr>flt_gain := setTargetAtTime (gains ! i) now 0.12 (flt_gain b)\<rparr>) ctx)
      else (Some TypeError, ctx))"

definition eqOn_effect :: "page \<Rightarrow> error option \<times> page" where
  "eqOn_effect s =
     (case audioContextRef s of
        None \<Rightarrow> (None, s)
      | Some ctx \<Rightarrow>
          if filtersRef s = [] then (None, s)
          else
            (let gains = gains_for (eqOn s);
                 now = currentTime ctx;
                 (e, ctx) = retarget (filtersRef s) 0 gains now ctx
             in (e, s\<lparr>audioContextRef := Some ctx\<rparr>)))"

text \<open>
  Setting the React state \<^verbatim>\<open>eqOn\<close>: the effect depends on \<^verbatim>\<open>[eqOn]\<close>, so it runs
  when the value has changed and not otherwise. This is the spec's
  \<^verbatim>\<open>setCurveEnabled\<close>. The toggle button calls it with the negated flag.
\<close>

definition setEqOn :: "bool \<Rightarrow> page \<Rightarrow> error option \<times> page" where
  "setEqOn v s = (if v = eqOn s then (None, s) else eqOn_effect (s\<lparr>eqOn := v\<rparr>))"

section \<open>\<^verbatim>\<open>togglePlay\<close> (lines 175--199)\<close>

text \<open>
  \<^verbatim>\<open>togglePlay\<close> is asynchronous: on its start path it suspends at
  \<^verbatim>\<open>await ctx.resume()\<close> (line 190), after it has read the refs and \<^verbatim>\<open>isPlaying\<close>,
  and other events can run before it continues. It is modelled in two pieces, each
  running without interruption. \<open>togglePlay_begin\<close> runs from the call to the first
  return or to the await: it passes the guard, and either stops the held source and
  resolves, or calls \<^verbatim>\<open>ctx.resume()\<close> and waits, keeping the buffer it has read. It
  reads the page's current \<^verbatim>\<open>isPlaying\<close> (a state update is taken to be rendered
  before the next event).
\<close>

datatype toggle_outcome = Resolved js_value | Awaiting audio_buffer

definition togglePlay_begin :: "page \<Rightarrow> toggle_outcome \<times> page" where
  "togglePlay_begin s =
     (case audioContextRef s of
        None \<Rightarrow> (Resolved Undefined, s)
      | Some ctx \<Rightarrow>
          (case bufferRef s of
             None \<Rightarrow> (Resolved Undefined, s)
           | Some buffer \<Rightarrow>
               (case filtersRef s of
                  [] \<Rightarrow> (Resolved Undefined, s)
                | filter0 # others \<Rightarrow>
                    if isPlaying s then
                      (let ctx = (case sourceRef s of
                                    None \<Rightarrow> ctx
                                  | Some src \<Rightarrow>
                                      (case stop_source src ctx of
                                         Inl e \<Rightarrow> ctx
                                       | Inr ctx' \<Rightarrow> ctx'))
                       in (Resolved Undefined,
                           s\<lparr>audioContextRef := Some ctx, sourceRef := None,
                             isPlaying := False\<rparr>))
                    else (Awaiting buffer, s))))"

text \<open>
  \<open>togglePlay_resumed\<close> is the rest of the call, run when the promise of
  \<^verbatim>\<open>ctx.resume()\<close> has settled: the first argument is the platform's answer (\<open>Some e\<close>:
  it refuses), the second the buffer the call has kept. The result is what the call's
  promise settles to (\<open>Inl\<close>: it rejects) and the page afterwards. The context is taken
  to start running, or to be found closed, when the resume settles. The local
  \<^verbatim>\<open>ctx\<close> is the object \<^verbatim>\<open>audioContextRef.current\<close> holds; a call that waits has
  passed the guard, so the ref holds a context and the first case does not occur.
  \<^verbatim>\<open>filtersRef.current[0]\<close> is read after the await; on an empty array it would be
  \<^verbatim>\<open>undefined\<close>, and \<^verbatim>\<open>connect\<close> would throw a \<^verbatim>\<open>TypeError\<close>.
\<close>

definition togglePlay_resumed ::
  "error option \<Rightarrow> audio_buffer \<Rightarrow> page \<Rightarrow> (error + js_value) \<times> page" where
  "togglePlay_resumed refusal buffer s =
     (case audioContextRef s of
        None \<Rightarrow> (Inr Undefined, s)
      | Some ctx \<Rightarrow>
          (case resume refusal ctx of
             Inl e \<Rightarrow> (Inl e, s)
           | Inr ctx \<Rightarrow>
               (let (source, ctx) = createBufferSource ctx;
                    ctx = update_source source (\<lambda>n. n\<lparr>src_buffer := Some buffer\<rparr>) ctx;
                    ctx = update_source source (\<lambda>n. n\<lparr>src_loop := True\<rparr>) ctx
                in case filtersRef s of
                     [] \<Rightarrow> (Inl TypeError, s\<lparr>audioContextRef := Some ctx\<rparr>)
                   | filter0 # others \<Rightarrow>
                       (let ctx = connect (SourceNode source) (FilterNode filter0) ctx
                        in case start_source source ctx of
                             Inl e \<Rightarrow> (Inl e, s\<lparr>audioContextRef := Some ctx\<rparr>)
                           | Inr ctx \<Rightarrow>
                               (Inr Undefined,
                                s\<lparr>audioContextRef := Some ctx, sourceRef := Some source,
                                  isPlaying := True\<rparr>)))))"

text \<open>A call during whose await nothing else happens: the two pieces one after the other.\<close>

definition togglePlay :: "error option \<Rightarrow> page \<Rightarrow> (error + js_value) \<times> page" where
  "togglePlay refusal s =
     (case togglePlay_begin s of
        (Resolved v, s') \<Rightarrow> (Inr v, s')
      | (Awaiting buffer, s') \<Rightarrow> togglePlay_resumed refusal buffer s')"

section \<open>Runs of the page\<close>

text \<open>
  What can happen to a mounted page: the two pieces of \<^verbatim>\<open>loadAudio\<close> (each once, in
  order), a click on the play button (the first piece of \<^verbatim>\<open>togglePlay\<close>; a call that
  waits joins \<open>pending_resumes\<close>), the settling of the oldest pending
  \<^verbatim>\<open>ctx.resume()\<close> (the second piece of that call), a click on the EQ toggle, time
  passing on the audio clock, and the unmount. Any events may come between a click and
  the settling of its resume, further clicks included. Clicks are allowed in every
  state, also ones the browser would not deliver (after the unmount), so a property of
  all runs covers more than the page can do.
\<close>

datatype event =
    FetchSettled "error + context_state"
  | DecodeSettled "error + audio_buffer"
  | PlayClick
  | ResumeSettled "error option"
  | ToggleClick
  | Elapse number
  | Unmount

definition elapse :: "number \<Rightarrow> page \<Rightarrow> page" where
  "elapse d s =
     (case audioContextRef s of
        None \<Rightarrow> s
      | Some ctx \<Rightarrow>
          if 0 \<le> d then s\<lparr>audioContextRef := Some (ctx\<lparr>currentTime := currentTime ctx + d\<rparr>)\<rparr>
          else s)"

fun step :: "page \<Rightarrow> event \<Rightarrow> page" where
  "step s (FetchSettled r) = (if loading s = Fetching then loadAudio_fetched r s else s)"
| "step s (DecodeSettled r) = (if loading s = Decoding then loadAudio_decoded r s else s)"
| "step s PlayClick =
     (case togglePlay_begin s of
        (Resolved v, s') \<Rightarrow> s'
      | (Awaiting buffer, s') \<Rightarrow> s'\<lparr>pending_resumes := pending_resumes s' @ [buffer]\<rparr>)"
| "step s (ResumeSettled refusal) =
     (case pending_resumes s of
        [] \<Rightarrow> s
      | buffer # waiting \<Rightarrow>
          snd (togglePlay_resumed refusal buffer (s\<lparr>pending_resumes := waiting\<rparr>)))"
| "step s ToggleClick = snd (setEqOn (\<not> eqOn s) s)"
| "step s (Elapse d) = elapse d s"
| "step s Unmount = (if mounted s then cleanup s else s)"

definition run :: "event list \<Rightarrow> page" where
  "run evs = foldl step Page_mounted evs"

section \<open>What holds of every run\<close>

text \<open>The six connections \<^verbatim>\<open>loadAudio\<close> makes, and the filters it builds.\<close>

definition chain_edges :: "(node \<times> node) list" where
  "chain_edges =
     [(FilterNode 0, FilterNode 1), (FilterNode 1, FilterNode 2), (FilterNode 2, FilterNode 3),
      (FilterNode 3, FilterNode 4), (FilterNode 4, FilterNode 5), (FilterNode 5, Destination)]"

text \<open>The fields of a filter that never change once it is built.\<close>

definition filter_shape :: "biquad_filter \<Rightarrow> biquad_type \<times> number \<times> number" where
  "filter_shape b = (flt_type b, param_value (flt_frequency b), param_value (flt_Q b))"

fun from_source :: "node \<times> node \<Rightarrow> bool" where
  "from_source (SourceNode i, b) = True"
| "from_source (a, b) = False"


text \<open>
  The invariant of the page. \<open>sourceRef\<close> holds a source exactly when \<open>isPlaying\<close> is
  true. Before the filter chain exists nothing has touched the context and no call
  waits; once it exists the refs hold the six filters in order, the filters keep their
  shape, the only connections besides the chain come from source nodes, and a source
  that \<open>sourceRef\<close> holds has been started.
\<close>

definition wf :: "page \<Rightarrow> bool" where
  "wf s =
     ((sourceRef s \<noteq> None) = isPlaying s \<and>
      (case audioContextRef s of
         None \<Rightarrow>
           loading s \<noteq> Decoding \<and> filtersRef s = [] \<and> bufferRef s = None \<and>
           sourceRef s = None \<and> pending_resumes s = []
       | Some ctx \<Rightarrow>
           loading s \<noteq> Fetching \<and>
           (if filtersRef s = []
            then bufferRef s = None \<and> sourceRef s = None \<and> pending_resumes s = [] \<and>
                 ctx_filters ctx = [] \<and> ctx_sources ctx = [] \<and> ctx_connections ctx = []
            else loading s = Settled \<and> bufferRef s \<noteq> None \<and>
                 filtersRef s = [0, 1, 2, 3, 4, 5] \<and>
                 map filter_shape (ctx_filters ctx) = map (\<lambda>f. (Peaking, f, 1)) freqs \<and>
                 filter (\<lambda>e. \<not> from_source e) (ctx_connections ctx) = chain_edges \<and>
                 (case sourceRef s of
                    None \<Rightarrow> True
                  | Some src \<Rightarrow>
                      src < length (ctx_sources ctx) \<and> src_started (ctx_sources ctx ! src)))))"

definition built_filters :: "biquad_filter list" where
  "built_filters =
     map (\<lambda>f. \<lparr>flt_type = Peaking, flt_frequency = \<lparr>param_value = f, param_events = []\<rparr>,
                flt_Q = \<lparr>param_value = 1, param_events = []\<rparr>,
                flt_gain = \<lparr>param_value = 0, param_events = []\<rparr>\<rparr>) freqs"

text \<open>
  What a page holds of its audio graph, read through \<^verbatim>\<open>audioContextRef\<close>; empty
  while there is no context.
\<close>

definition filters_of :: "page \<Rightarrow> biquad_filter list" where
  "filters_of s = (case audioContextRef s of None \<Rightarrow> [] | Some ctx \<Rightarrow> ctx_filters ctx)"

definition sources_of :: "page \<Rightarrow> buffer_source list" where
  "sources_of s = (case audioContextRef s of None \<Rightarrow> [] | Some ctx \<Rightarrow> ctx_sources ctx)"

definition connections_of :: "page \<Rightarrow> (node \<times> node) list" where
  "connections_of s =
     (case audioContextRef s of None \<Rightarrow> [] | Some ctx \<Rightarrow> ctx_connections ctx)"

definition clock :: "page \<Rightarrow> number" where
  "clock s = (case audioContextRef s of None \<Rightarrow> 0 | Some ctx \<Rightarrow> currentTime ctx)"

definition state_of :: "page \<Rightarrow> context_state option" where
  "state_of s = (case audioContextRef s of None \<Rightarrow> None | Some ctx \<Rightarrow> Some (ctx_state ctx))"

text \<open>The target of the automation command scheduled last on a parameter.\<close>

definition latest_target :: "audio_param \<Rightarrow> number option" where
  "latest_target p =
     (case rev (param_events p) of
        [] \<Rightarrow> None
      | SetTargetAtTime target startTime timeConstant # earlier \<Rightarrow> Some target)"

text \<open>The series the page hands to the chart (line 244): \<^verbatim>\<open><EQGraph isBassHeavy={eqOn} />\<close>.\<close>

definition chart_series :: "page \<Rightarrow> (string \<times> number) list" where
  "chart_series s = zip labels (EQGraph_data (eqOn s))"

text \<open>
  Where a gain is, or is heading: the target of the command scheduled last, or the value
  when nothing is scheduled.
\<close>

definition gain_goal :: "audio_param \<Rightarrow> number" where
  "gain_goal p = (case latest_target p of None \<Rightarrow> param_value p | Some target \<Rightarrow> target)"



subsection \<open>The invariant is kept\<close>

lemma map_list_update_same: "g y = g (xs ! i) \<Longrightarrow> map g (xs[i := y]) = map g xs"
  by (cases "i < length xs") (simp_all add: map_update list_update_same_conv list_update_beyond)

lemma update_filter_frame:
  "ctx_state (update_filter i g ctx) = ctx_state ctx"
  "currentTime (update_filter i g ctx) = currentTime ctx"
  "ctx_sources (update_filter i g ctx) = ctx_sources ctx"
  "ctx_connections (update_filter i g ctx) = ctx_connections ctx"
  "length (ctx_filters (update_filter i g ctx)) = length (ctx_filters ctx)"
  by (simp_all add: update_filter_def)

lemma update_gain_shape:
  "map filter_shape (ctx_filters (update_filter i (\<lambda>b. b\<lparr>flt_gain := g (flt_gain b)\<rparr>) ctx)) =
   map filter_shape (ctx_filters ctx)"
  by (simp add: update_filter_def map_list_update_same filter_shape_def)

lemma retarget_frame:
  "ctx_state (snd (retarget fs i gains now ctx)) = ctx_state ctx \<and>
   currentTime (snd (retarget fs i gains now ctx)) = currentTime ctx \<and>
   ctx_sources (snd (retarget fs i gains now ctx)) = ctx_sources ctx \<and>
   ctx_connections (snd (retarget fs i gains now ctx)) = ctx_connections ctx \<and>
   map filter_shape (ctx_filters (snd (retarget fs i gains now ctx))) =
     map filter_shape (ctx_filters ctx)"
proof (induction fs arbitrary: i ctx)
  case Nil
  show ?case by simp
next
  case (Cons f fs)
  show ?case
    by (simp add: Cons.IH update_filter_frame update_gain_shape)
qed

lemma wf_init: "wf Page_mounted"
  by (simp add: wf_def Page_mounted_def)

lemma wf_fetched: "wf s \<Longrightarrow> loading s = Fetching \<Longrightarrow> wf (loadAudio_fetched r s)"
  by (auto simp: wf_def loadAudio_fetched_def new_AudioContext_def split: sum.splits option.splits)

lemma wf_elapse: "wf s \<Longrightarrow> wf (elapse d s)"
  by (auto simp: wf_def elapse_def split: option.splits)

lemma wf_eqOn_effect:
  assumes "wf s"
  shows "wf (snd (eqOn_effect s))"
proof (cases "audioContextRef s")
  case None
  with assms show ?thesis by (simp add: eqOn_effect_def)
next
  case (Some ctx)
  show ?thesis
  proof (cases "filtersRef s = []")
    case True
    with assms Some show ?thesis by (simp add: eqOn_effect_def)
  next
    case False
    define ctx' where "ctx' = snd (retarget (filtersRef s) 0 (gains_for (eqOn s)) (currentTime ctx) ctx)"
    have post: "snd (eqOn_effect s) = s\<lparr>audioContextRef := Some ctx'\<rparr>"
      using Some False by (simp add: eqOn_effect_def ctx'_def split: prod.splits)
    have frame: "ctx_sources ctx' = ctx_sources ctx" "ctx_connections ctx' = ctx_connections ctx"
      "map filter_shape (ctx_filters ctx') = map filter_shape (ctx_filters ctx)"
      unfolding ctx'_def by (simp_all add: retarget_frame)
    from assms Some False show ?thesis
      unfolding post by (simp add: wf_def frame split: option.splits)
  qed
qed

lemma wf_setEqOn:
  assumes "wf s"
  shows "wf (snd (setEqOn v s))"
proof (cases "v = eqOn s")
  case True
  with assms show ?thesis by (simp add: setEqOn_def)
next
  case False
  from assms have "wf (s\<lparr>eqOn := v\<rparr>)" by (auto simp: wf_def split: option.splits)
  then have "wf (snd (eqOn_effect (s\<lparr>eqOn := v\<rparr>)))" by (rule wf_eqOn_effect)
  with False show ?thesis by (simp only: setEqOn_def if_False)
qed

lemma loadAudio_decoded_fresh:
  assumes "mounted s" "audioContextRef s = Some ctx"
    and "ctx_filters ctx = []" "ctx_connections ctx = []"
  shows "loadAudio_decoded (Inr buffer) s =
         s\<lparr>bufferRef := Some buffer,
           audioContextRef :=
             Some (ctx\<lparr>ctx_filters := built_filters, ctx_connections := chain_edges\<rparr>),
           filtersRef := [0, 1, 2, 3, 4, 5], loading := Settled\<rparr>"
  using assms
  by (simp add: loadAudio_decoded_def freqs_def make_filter_def createBiquadFilter_def
      update_filter_def default_biquad_def default_param_def set_value_def chain_filters_def
      connect_def chain_edges_def built_filters_def)

lemma wf_decoded:
  assumes "wf s" "loading s = Decoding"
  shows "wf (loadAudio_decoded r s)"
proof (cases r)
  case (Inl e)
  with assms show ?thesis by (auto simp: wf_def loadAudio_decoded_def split: option.splits)
next
  case (Inr buffer)
  show ?thesis
  proof (cases "mounted s")
    case False
    with assms Inr show ?thesis by (auto simp: wf_def loadAudio_decoded_def split: option.splits)
  next
    case True
    from assms obtain ctx where ctx: "audioContextRef s = Some ctx"
      by (auto simp: wf_def split: option.splits)
    with assms have fresh: "ctx_filters ctx = []" "ctx_connections ctx = []" "ctx_sources ctx = []"
      "sourceRef s = None" "\<not> isPlaying s" "pending_resumes s = []"
      by (auto simp: wf_def split: if_splits)
    show ?thesis
      unfolding Inr loadAudio_decoded_fresh [OF True ctx fresh(1,2)]
      using fresh by (simp add: wf_def built_filters_def filter_shape_def chain_edges_def)
  qed
qed

lemma togglePlay_begin_guard:
  "audioContextRef s = None \<or> bufferRef s = None \<or> filtersRef s = [] \<Longrightarrow>
   togglePlay_begin s = (Resolved Undefined, s)"
  by (auto simp: togglePlay_begin_def split: option.splits list.splits)

lemma togglePlay_begin_stop:
  assumes "audioContextRef s = Some ctx" "bufferRef s = Some buffer" "filtersRef s \<noteq> []"
    and "isPlaying s"
  shows "togglePlay_begin s =
         (Resolved Undefined,
          s\<lparr>audioContextRef :=
              Some (case sourceRef s of
                      None \<Rightarrow> ctx
                    | Some src \<Rightarrow>
                        if src < length (ctx_sources ctx) \<and> src_started (ctx_sources ctx ! src)
                        then ctx\<lparr>ctx_sources :=
                               (ctx_sources ctx)[src := (ctx_sources ctx ! src)\<lparr>src_stopped := True\<rparr>]\<rparr>
                        else ctx),
            sourceRef := None, isPlaying := False\<rparr>)"
  using assms
  by (auto simp: togglePlay_begin_def stop_source_def update_source_def
      split: option.splits list.splits)

lemma togglePlay_begin_wait:
  assumes "audioContextRef s = Some ctx" "bufferRef s = Some buffer" "filtersRef s \<noteq> []"
    and "\<not> isPlaying s"
  shows "togglePlay_begin s = (Awaiting buffer, s)"
  using assms by (auto simp: togglePlay_begin_def split: list.splits)

lemma togglePlay_resumed_refused:
  assumes "audioContextRef s = Some ctx" "ctx_state ctx = Closed \<or> refusal \<noteq> None"
  shows "\<exists>e. togglePlay_resumed refusal buffer s = (Inl e, s)"
  using assms by (auto simp: togglePlay_resumed_def resume_def split: option.splits)

lemma togglePlay_resumed_start:
  assumes "audioContextRef s = Some ctx" "filtersRef s = filter0 # others"
    and "ctx_state ctx \<noteq> Closed"
  shows "togglePlay_resumed None buffer s =
         (Inr Undefined,
          s\<lparr>audioContextRef :=
              Some (ctx\<lparr>ctx_state := Running,
                     ctx_sources := ctx_sources ctx @
                       [\<lparr>src_buffer = Some buffer, src_loop = True, src_started = True,
                         src_stopped = False\<rparr>],
                     ctx_connections := ctx_connections ctx @
                       [(SourceNode (length (ctx_sources ctx)), FilterNode filter0)]\<rparr>),
            sourceRef := Some (length (ctx_sources ctx)), isPlaying := True\<rparr>)"
  using assms
  by (simp add: togglePlay_resumed_def resume_def createBufferSource_def update_source_def
      connect_def start_source_def)

lemma togglePlay_guard:
  "audioContextRef s = None \<or> bufferRef s = None \<or> filtersRef s = [] \<Longrightarrow>
   togglePlay refusal s = (Inr Undefined, s)"
  by (simp add: togglePlay_def togglePlay_begin_guard)

lemma togglePlay_stop:
  assumes "audioContextRef s = Some ctx" "bufferRef s = Some buffer" "filtersRef s \<noteq> []"
    and "isPlaying s"
  shows "togglePlay refusal s =
         (Inr Undefined,
          s\<lparr>audioContextRef :=
              Some (case sourceRef s of
                      None \<Rightarrow> ctx
                    | Some src \<Rightarrow>
                        if src < length (ctx_sources ctx) \<and> src_started (ctx_sources ctx ! src)
                        then ctx\<lparr>ctx_sources :=
                               (ctx_sources ctx)[src := (ctx_sources ctx ! src)\<lparr>src_stopped := True\<rparr>]\<rparr>
                        else ctx),
            sourceRef := None, isPlaying := False\<rparr>)"
  by (simp add: togglePlay_def togglePlay_begin_stop [OF assms])

lemma togglePlay_refused:
  assumes "audioContextRef s = Some ctx" "bufferRef s = Some buffer" "filtersRef s \<noteq> []"
    and "\<not> isPlaying s" "ctx_state ctx = Closed \<or> refusal \<noteq> None"
  shows "\<exists>e. togglePlay refusal s = (Inl e, s)"
  using togglePlay_resumed_refused [OF assms(1,5), of buffer]
  by (simp add: togglePlay_def togglePlay_begin_wait [OF assms(1-4)])

lemma togglePlay_start:
  assumes "audioContextRef s = Some ctx" "bufferRef s = Some buffer" "filtersRef s = filter0 # others"
    and "\<not> isPlaying s" "ctx_state ctx \<noteq> Closed"
  shows "togglePlay None s =
         (Inr Undefined,
          s\<lparr>audioContextRef :=
              Some (ctx\<lparr>ctx_state := Running,
                     ctx_sources := ctx_sources ctx @
                       [\<lparr>src_buffer = Some buffer, src_loop = True, src_started = True,
                         src_stopped = False\<rparr>],
                     ctx_connections := ctx_connections ctx @
                       [(SourceNode (length (ctx_sources ctx)), FilterNode filter0)]\<rparr>),
            sourceRef := Some (length (ctx_sources ctx)), isPlaying := True\<rparr>)"
proof -
  have "filtersRef s \<noteq> []" using assms(3) by simp
  from togglePlay_begin_wait [OF assms(1,2) this assms(4)]
  show ?thesis
    by (simp add: togglePlay_def togglePlay_resumed_start [OF assms(1,3,5)])
qed

lemma wf_readyD:
  assumes "wf s" "audioContextRef s = Some ctx" "filtersRef s \<noteq> []"
  shows "filtersRef s = [0, 1, 2, 3, 4, 5]" "bufferRef s \<noteq> None" "loading s = Settled"
    "(sourceRef s \<noteq> None) = isPlaying s"
    "map filter_shape (ctx_filters ctx) = map (\<lambda>f. (Peaking, f, 1)) freqs"
    "filter (\<lambda>e. \<not> from_source e) (ctx_connections ctx) = chain_edges"
    "\<And>src. sourceRef s = Some src \<Longrightarrow>
       src < length (ctx_sources ctx) \<and> src_started (ctx_sources ctx ! src)"
  using assms by (simp_all add: wf_def)

lemma wf_readyI:
  assumes "audioContextRef s = Some ctx"
    and "filtersRef s = [0, 1, 2, 3, 4, 5]" "bufferRef s \<noteq> None" "loading s = Settled"
    and "(sourceRef s \<noteq> None) = isPlaying s"
    and "map filter_shape (ctx_filters ctx) = map (\<lambda>f. (Peaking, f, 1)) freqs"
    and "filter (\<lambda>e. \<not> from_source e) (ctx_connections ctx) = chain_edges"
    and "\<And>src. sourceRef s = Some src \<Longrightarrow>
       src < length (ctx_sources ctx) \<and> src_started (ctx_sources ctx ! src)"
  shows "wf s"
proof -
  have b: "case sourceRef s of None \<Rightarrow> True
           | Some src \<Rightarrow> src < length (ctx_sources ctx) \<and> src_started (ctx_sources ctx ! src)"
    using assms(8) by (cases "sourceRef s") simp_all
  show ?thesis
    unfolding wf_def using b assms(1-7) by simp
qed

lemma wf_pending:
  assumes "wf s" "filtersRef s \<noteq> []"
  shows "wf (s\<lparr>pending_resumes := waiting\<rparr>)"
proof -
  from assms obtain ctx where ctx: "audioContextRef s = Some ctx"
    by (cases "audioContextRef s") (simp_all add: wf_def)
  note inv = wf_readyD [OF assms(1) ctx assms(2)]
  show ?thesis
  proof (rule wf_readyI [where ctx = ctx])
    show "src < length (ctx_sources ctx) \<and> src_started (ctx_sources ctx ! src)"
      if "sourceRef (s\<lparr>pending_resumes := waiting\<rparr>) = Some src" for src
      using that inv(7) [of src] by simp
  qed (insert inv(4), simp_all add: inv(1,2,3,5,6) ctx)
qed

lemma wf_togglePlay_begin:
  assumes "wf s"
  shows "wf (snd (togglePlay_begin s))"
proof (cases "audioContextRef s = None \<or> bufferRef s = None \<or> filtersRef s = []")
  case True
  with assms show ?thesis by (simp add: togglePlay_begin_guard)
next
  case False
  then obtain ctx buffer where ready: "audioContextRef s = Some ctx" "bufferRef s = Some buffer"
    "filtersRef s \<noteq> []" by auto
  note inv = wf_readyD [OF assms ready(1,3)]
  show ?thesis
  proof (cases "isPlaying s")
    case True
    then obtain src where src: "sourceRef s = Some src" using inv(4) by auto
    have ok: "src < length (ctx_sources ctx)" "src_started (ctx_sources ctx ! src)"
      using inv(7) [OF src] by simp_all
    define ctx' where
      "ctx' = ctx\<lparr>ctx_sources := (ctx_sources ctx)[src := (ctx_sources ctx ! src)\<lparr>src_stopped := True\<rparr>]\<rparr>"
    have post: "snd (togglePlay_begin s) =
                s\<lparr>audioContextRef := Some ctx', sourceRef := None, isPlaying := False\<rparr>"
      by (simp add: togglePlay_begin_stop [OF ready True] src ok ctx'_def)
    show ?thesis
      unfolding post
      by (rule wf_readyI [where ctx = ctx']) (simp_all add: inv(1,2,3,5,6) ready ctx'_def)
  next
    case False
    with assms show ?thesis by (simp add: togglePlay_begin_wait [OF ready False])
  qed
qed

lemma wf_togglePlay_resumed:
  assumes "wf s" "filtersRef s \<noteq> []"
  shows "wf (snd (togglePlay_resumed refusal buffer s))"
proof -
  from assms obtain ctx where ctx: "audioContextRef s = Some ctx"
    by (cases "audioContextRef s") (simp_all add: wf_def)
  note inv = wf_readyD [OF assms(1) ctx assms(2)]
  have fs: "filtersRef s = 0 # [1, 2, 3, 4, 5]" by (simp add: inv(1))
  show ?thesis
  proof (cases "ctx_state ctx = Closed \<or> refusal \<noteq> None")
    case True
    from togglePlay_resumed_refused [OF ctx True, of buffer] assms(1) show ?thesis by auto
  next
    case False
    then have r: "refusal = None" "ctx_state ctx \<noteq> Closed" by auto
    define n where "n = length (ctx_sources ctx)"
    define ctx' where
      "ctx' = ctx\<lparr>ctx_state := Running,
               ctx_sources := ctx_sources ctx @
                 [\<lparr>src_buffer = Some buffer, src_loop = True, src_started = True,
                   src_stopped = False\<rparr>],
               ctx_connections := ctx_connections ctx @ [(SourceNode n, FilterNode 0)]\<rparr>"
    have post: "snd (togglePlay_resumed refusal buffer s) =
                s\<lparr>audioContextRef := Some ctx', sourceRef := Some n, isPlaying := True\<rparr>"
      by (simp add: r(1) togglePlay_resumed_start [OF ctx fs r(2)] ctx'_def n_def)
    show ?thesis
      unfolding post
      by (rule wf_readyI [where ctx = ctx']) (simp_all add: inv(1,2,3,5,6) ctx'_def n_def)
  qed
qed

lemma wf_togglePlay:
  assumes "wf s"
  shows "wf (snd (togglePlay refusal s))"
proof (cases "togglePlay_begin s")
  case (Pair outcome s')
  have inv': "wf s'" using wf_togglePlay_begin [OF assms] Pair by simp
  show ?thesis
  proof (cases outcome)
    case (Resolved v)
    with Pair inv' show ?thesis by (simp add: togglePlay_def)
  next
    case (Awaiting buffer)
    have built: "filtersRef s' \<noteq> []"
    proof
      assume "filtersRef s' = []"
      with inv' have "audioContextRef s' = None \<or> bufferRef s' = None \<or> filtersRef s' = []"
        by simp
      moreover have "s' = s"
        using Pair Awaiting
        by (auto simp: togglePlay_begin_def Let_def split: option.splits list.splits if_splits)
      ultimately show False using Pair Awaiting by (simp add: togglePlay_begin_guard)
    qed
    from wf_togglePlay_resumed [OF inv' built] Pair Awaiting show ?thesis
      by (simp add: togglePlay_def)
  qed
qed

lemma wf_play_click: "wf s \<Longrightarrow> wf (step s PlayClick)"
proof -
  assume inv: "wf s"
  show ?thesis
  proof (cases "audioContextRef s = None \<or> bufferRef s = None \<or> filtersRef s = []")
    case True
    with inv show ?thesis by (simp add: togglePlay_begin_guard)
  next
    case False
    then obtain ctx buffer where ready: "audioContextRef s = Some ctx" "bufferRef s = Some buffer"
      "filtersRef s \<noteq> []" by auto
    show ?thesis
    proof (cases "isPlaying s")
      case True
      from wf_togglePlay_begin [OF inv] show ?thesis
        by (simp add: togglePlay_begin_stop [OF ready True])
    next
      case False
      from wf_pending [OF inv ready(3)] show ?thesis
        by (simp add: togglePlay_begin_wait [OF ready False])
    qed
  qed
qed

lemma wf_resume_settled: "wf s \<Longrightarrow> wf (step s (ResumeSettled refusal))"
proof -
  assume inv: "wf s"
  show ?thesis
  proof (cases "pending_resumes s")
    case Nil
    with inv show ?thesis by simp
  next
    case (Cons buffer waiting)
    have built: "filtersRef s \<noteq> []"
      using inv Cons by (cases "audioContextRef s") (auto simp: wf_def split: if_splits)
    from wf_togglePlay_resumed [OF wf_pending [OF inv built, of waiting], of refusal buffer]
      built Cons
    show ?thesis by simp
  qed
qed

lemma wf_cleanup:
  assumes "wf s"
  shows "wf (cleanup s)"
proof (cases "audioContextRef s")
  case None
  with assms show ?thesis by (auto simp: wf_def cleanup_def)
next
  case (Some ctx)
  show ?thesis
  proof (cases "filtersRef s = []")
    case True
    with assms Some show ?thesis by (auto simp: wf_def cleanup_def)
  next
    case False
    note inv = wf_readyD [OF assms Some False]
    define ctx' where
      "ctx' = (case sourceRef s of
                 None \<Rightarrow> ctx
               | Some src \<Rightarrow> (case stop_source src ctx of Inl e \<Rightarrow> ctx | Inr c \<Rightarrow> c))"
    have post: "cleanup s = s\<lparr>mounted := False, audioContextRef := Some (ctx'\<lparr>ctx_state := Closed\<rparr>)\<rparr>"
      by (simp add: cleanup_def Some ctx'_def)
    have src: "ctx_sources ctx' = (case sourceRef s of None \<Rightarrow> ctx_sources ctx
                 | Some src \<Rightarrow> (ctx_sources ctx)[src := (ctx_sources ctx ! src)\<lparr>src_stopped := True\<rparr>])"
      "ctx_filters ctx' = ctx_filters ctx" "ctx_connections ctx' = ctx_connections ctx"
      using inv(7) by (auto simp: ctx'_def stop_source_def update_source_def split: option.splits)
    show ?thesis
      unfolding post
    proof (rule wf_readyI [where ctx = "ctx'\<lparr>ctx_state := Closed\<rparr>"])
      show "src < length (ctx_sources (ctx'\<lparr>ctx_state := Closed\<rparr>)) \<and>
            src_started (ctx_sources (ctx'\<lparr>ctx_state := Closed\<rparr>) ! src)"
        if "sourceRef (s\<lparr>mounted := False, audioContextRef := Some (ctx'\<lparr>ctx_state := Closed\<rparr>)\<rparr>) = Some src"
        for src
        using that inv(7) [of src] by (simp add: src)
    qed (insert inv(4), simp_all add: inv(1,2,3,5,6) src)
  qed
qed

lemma wf_step: "wf s \<Longrightarrow> wf (step s e)"
proof (cases e)
  case PlayClick
  assume "wf s"
  with PlayClick show ?thesis by (simp only: wf_play_click)
next
  case (ResumeSettled refusal)
  assume "wf s"
  with ResumeSettled show ?thesis by (simp only: wf_resume_settled)
qed (simp_all add: wf_fetched wf_decoded wf_setEqOn wf_elapse wf_cleanup)

lemma wf_foldl: "wf s \<Longrightarrow> wf (foldl step s evs)"
  by (induction evs arbitrary: s) (simp_all add: wf_step)

lemma wf_run: "wf (run evs)"
  unfolding run_def by (rule wf_foldl [OF wf_init])

subsection \<open>The gain effect on a built chain\<close>

lemma six_filters:
  assumes "wf s" "audioContextRef s = Some ctx" "filtersRef s \<noteq> []"
  shows "\<exists>a b c d e f. ctx_filters ctx = [a, b, c, d, e, f]"
proof -
  have "length (ctx_filters ctx) = length freqs"
    using arg_cong [OF wf_readyD(5) [OF assms], of length] by simp
  then have "length (ctx_filters ctx) = 6"
    by (simp add: freqs_def)
  then show ?thesis
    by (auto simp: numeral_eq_Suc length_Suc_conv)
qed

lemma retarget_six:
  "ctx_filters ctx = [a, b, c, d, e, f] \<Longrightarrow>
   retarget [0, 1, 2, 3, 4, 5] 0 [g0, g1, g2, g3, g4, g5] now ctx =
     (None, ctx\<lparr>ctx_filters :=
        [a\<lparr>flt_gain := setTargetAtTime g0 now 0.12 (flt_gain a)\<rparr>,
         b\<lparr>flt_gain := setTargetAtTime g1 now 0.12 (flt_gain b)\<rparr>,
         c\<lparr>flt_gain := setTargetAtTime g2 now 0.12 (flt_gain c)\<rparr>,
         d\<lparr>flt_gain := setTargetAtTime g3 now 0.12 (flt_gain d)\<rparr>,
         e\<lparr>flt_gain := setTargetAtTime g4 now 0.12 (flt_gain e)\<rparr>,
         f\<lparr>flt_gain := setTargetAtTime g5 now 0.12 (flt_gain f)\<rparr>]\<rparr>)"
  by (simp add: update_filter_def)

lemma wf_eqOn_update: "wf (s\<lparr>eqOn := v\<rparr>) = wf s"
  by (cases "audioContextRef s"; cases "sourceRef s"; simp add: wf_def)

lemma eqOn_effect_ready:
  assumes "wf s" "audioContextRef s = Some ctx" "filtersRef s \<noteq> []"
  shows "eqOn_effect s =
         (None,
          s\<lparr>audioContextRef :=
              Some (ctx\<lparr>ctx_filters :=
                map2 (\<lambda>b target.
                        b\<lparr>flt_gain := setTargetAtTime target (currentTime ctx) 0.12 (flt_gain b)\<rparr>)
                  (ctx_filters ctx) (gains_for (eqOn s))\<rparr>)\<rparr>)"
proof -
  obtain a b c d e f where six: "ctx_filters ctx = [a, b, c, d, e, f]"
    using six_filters [OF assms] by blast
  have refs: "filtersRef s = [0, 1, 2, 3, 4, 5]"
    by (rule wf_readyD(1) [OF assms])
  have on: "retarget [0, 1, 2, 3, 4, 5] 0 (gains_for True) now ctx =
           (None, ctx\<lparr>ctx_filters :=
              map2 (\<lambda>b target. b\<lparr>flt_gain := setTargetAtTime target now 0.12 (flt_gain b)\<rparr>)
                (ctx_filters ctx) (gains_for True)\<rparr>)" for now
    unfolding gains_for_def if_True retarget_six [OF six] by (simp add: six)
  have off: "retarget [0, 1, 2, 3, 4, 5] 0 (gains_for False) now ctx =
           (None, ctx\<lparr>ctx_filters :=
              map2 (\<lambda>b target. b\<lparr>flt_gain := setTargetAtTime target now 0.12 (flt_gain b)\<rparr>)
                (ctx_filters ctx) (gains_for False)\<rparr>)" for now
    unfolding gains_for_def if_False retarget_six [OF six] by (simp add: six)
  have r: "retarget [0, 1, 2, 3, 4, 5] 0 (gains_for v) now ctx =
           (None, ctx\<lparr>ctx_filters :=
              map2 (\<lambda>b target. b\<lparr>flt_gain := setTargetAtTime target now 0.12 (flt_gain b)\<rparr>)
                (ctx_filters ctx) (gains_for v)\<rparr>)" for v now
  proof (cases v)
    case True
    then have "v = True" by simp
    show ?thesis unfolding \<open>v = True\<close> by (rule on)
  next
    case False
    then have "v = False" by simp
    show ?thesis unfolding \<open>v = False\<close> by (rule off)
  qed
  show ?thesis
    unfolding eqOn_effect_def assms(2) option.case refs Let_def r by simp
qed

lemma setEqOn_ready:
  assumes "wf s" "audioContextRef s = Some ctx" "filtersRef s \<noteq> []" "v \<noteq> eqOn s"
  shows "setEqOn v s =
         (None,
          s\<lparr>eqOn := v,
            audioContextRef :=
              Some (ctx\<lparr>ctx_filters :=
                map2 (\<lambda>b target.
                        b\<lparr>flt_gain := setTargetAtTime target (currentTime ctx) 0.12 (flt_gain b)\<rparr>)
                  (ctx_filters ctx) (gains_for v)\<rparr>)\<rparr>)"
proof -
  have "wf (s\<lparr>eqOn := v\<rparr>)" using assms(1) by (simp add: wf_eqOn_update)
  from eqOn_effect_ready [OF this, of ctx] assms(2,3,4) show ?thesis
    by (simp add: setEqOn_def)
qed

section \<open>Properties of the page\<close>

subsection \<open>A page whose load has succeeded\<close>

lemmas load_defs =
  run_def Page_mounted_def loadAudio_fetched_def loadAudio_decoded_def new_AudioContext_def
  freqs_def make_filter_def createBiquadFilter_def update_filter_def default_biquad_def
  default_param_def set_value_def chain_filters_def connect_def elapse_def

lemma run_loaded:
  "run [FetchSettled (Inr Suspended), DecodeSettled (Inr (AudioBuffer 0))] =
     \<lparr>eqOn = False, isPlaying = False,
      audioContextRef = Some \<lparr>ctx_state = Suspended, currentTime = 0,
        ctx_filters = built_filters, ctx_sources = [], ctx_connections = chain_edges\<rparr>,
      sourceRef = None, filtersRef = [0, 1, 2, 3, 4, 5], bufferRef = Some (AudioBuffer 0),
      mounted = True, loading = Settled, console_errors = [], pending_resumes = []\<rparr>"
  by (simp add: load_defs built_filters_def chain_edges_def)

subsection \<open>The two tables of the curve\<close>


subsection \<open>Retargeting the gains\<close>

text \<open>
  C2. In every run of the page, when the filter chain has been built and the flag changes,
  the effect raises no error and schedules on each of the six filters' gains one
  \<^verbatim>\<open>setTargetAtTime\<close> command: its target is the selected curve's gain at that
  filter's position, its start time is the context's current time at the call, and its
  time constant is 0.12. The value fields of the gains are not assigned, so no gain
  jumps. The filters stand at the frequencies of \<open>freqs\<close>, in order.
\<close>

theorem C2_retarget:
  assumes "s = run evs" and "filtersRef s \<noteq> []" and "v \<noteq> eqOn s"
  shows "fst (setEqOn v s) = None \<and>
         map (\<lambda>b. param_events (flt_gain b)) (filters_of (snd (setEqOn v s))) =
           map2 (\<lambda>b target. param_events (flt_gain b) @ [SetTargetAtTime target (clock s) 0.12])
             (filters_of s) (gains_for v) \<and>
         map (\<lambda>b. param_value (flt_gain b)) (filters_of (snd (setEqOn v s))) =
           map (\<lambda>b. param_value (flt_gain b)) (filters_of s) \<and>
         map (\<lambda>b. param_value (flt_frequency b)) (filters_of (snd (setEqOn v s))) = freqs \<and>
         length (filters_of (snd (setEqOn v s))) = 6 \<and> length (gains_for v) = 6"
proof -
  have inv: "wf s" unfolding assms(1) by (rule wf_run)
  from inv assms(2) obtain ctx where ctx: "audioContextRef s = Some ctx"
    by (cases "audioContextRef s") (simp_all add: wf_def)
  obtain a b c d e f where six: "ctx_filters ctx = [a, b, c, d, e, f]"
    using six_filters [OF inv ctx assms(2)] by blast
  have shape: "map filter_shape [a, b, c, d, e, f] = map (\<lambda>f. (Peaking, f, 1)) freqs"
    using wf_readyD(5) [OF inv ctx assms(2)] by (simp only: six)
  have fr: "map (\<lambda>b. param_value (flt_frequency b)) [a, b, c, d, e, f] = freqs"
    using shape by (simp add: filter_shape_def freqs_def)
  show ?thesis
    unfolding setEqOn_ready [OF inv ctx assms(2,3)]
    using fr
    by (cases v)
      (simp_all add: filters_of_def clock_def ctx six gains_for_def setTargetAtTime_def)
qed

theorem C2_retarget_witness:
  "filtersRef (run [FetchSettled (Inr Suspended), DecodeSettled (Inr (AudioBuffer 0)), Elapse 2])
     \<noteq> [] \<and>
   True \<noteq> eqOn (run [FetchSettled (Inr Suspended), DecodeSettled (Inr (AudioBuffer 0)), Elapse 2]) \<and>
   map (\<lambda>b. param_events (flt_gain b))
     (filters_of (snd (setEqOn True
        (run [FetchSettled (Inr Suspended), DecodeSettled (Inr (AudioBuffer 0)), Elapse 2])))) =
     [[SetTargetAtTime 12 2 0.12], [SetTargetAtTime 10 2 0.12], [SetTargetAtTime 4 2 0.12],
      [SetTargetAtTime (-6) 2 0.12], [SetTargetAtTime (-8) 2 0.12],
      [SetTargetAtTime (-12) 2 0.12]]"
  using C2_retarget [of "run [FetchSettled (Inr Suspended), DecodeSettled (Inr (AudioBuffer 0)), Elapse 2]"
      "[FetchSettled (Inr Suspended), DecodeSettled (Inr (AudioBuffer 0)), Elapse 2]" True]
  by (simp add: load_defs filters_of_def clock_def gains_for_def)

subsection \<open>Building the chain\<close>

lemma decoding_fresh:
  assumes "wf s" "loading s = Decoding"
  shows "\<exists>ctx. audioContextRef s = Some ctx \<and> ctx_filters ctx = [] \<and> ctx_sources ctx = [] \<and>
           ctx_connections ctx = []"
    and "filtersRef s = []"
  using assms by (cases "audioContextRef s"; cases "filtersRef s = []"; simp add: wf_def)+

lemma run_snoc: "run (evs @ [e]) = step (run evs) e"
  by (simp add: run_def)

lemma togglePlay_begin_frame:
  "eqOn (snd (togglePlay_begin s)) = eqOn s \<and>
   filtersRef (snd (togglePlay_begin s)) = filtersRef s \<and>
   filters_of (snd (togglePlay_begin s)) = filters_of s \<and>
   clock (snd (togglePlay_begin s)) = clock s"
  by (simp add: togglePlay_begin_def filters_of_def clock_def update_source_def
      stop_source_def Let_def split: option.splits list.splits sum.splits)

lemma togglePlay_resumed_frame:
  "eqOn (snd (togglePlay_resumed refusal buffer s)) = eqOn s \<and>
   filtersRef (snd (togglePlay_resumed refusal buffer s)) = filtersRef s \<and>
   filters_of (snd (togglePlay_resumed refusal buffer s)) = filters_of s \<and>
   clock (snd (togglePlay_resumed refusal buffer s)) = clock s"
  by (simp add: togglePlay_resumed_def filters_of_def clock_def resume_def
      createBufferSource_def update_source_def connect_def start_source_def Let_def
      split: option.splits list.splits sum.splits)


lemma step_frame:
  assumes "e = PlayClick \<or> (\<exists>refusal. e = ResumeSettled refusal) \<or> (\<exists>d. e = Elapse d) \<or>
           e = Unmount"
  shows "eqOn (step s e) = eqOn s \<and> filtersRef (step s e) = filtersRef s \<and>
         filters_of (step s e) = filters_of s"
proof -
  have click: "eqOn (step s PlayClick) = eqOn s \<and> filtersRef (step s PlayClick) = filtersRef s \<and>
               filters_of (step s PlayClick) = filters_of s"
    using togglePlay_begin_frame [of s]
    by (cases "togglePlay_begin s") (simp add: filters_of_def split: toggle_outcome.splits)
  have settle: "eqOn (step s (ResumeSettled refusal)) = eqOn s \<and>
                filtersRef (step s (ResumeSettled refusal)) = filtersRef s \<and>
                filters_of (step s (ResumeSettled refusal)) = filters_of s" for refusal
  proof (cases "pending_resumes s")
    case Nil
    then show ?thesis by simp
  next
    case (Cons buffer waiting)
    with togglePlay_resumed_frame [of refusal buffer "s\<lparr>pending_resumes := waiting\<rparr>"]
    show ?thesis by (simp add: filters_of_def)
  qed
  have time: "eqOn (step s (Elapse d)) = eqOn s \<and> filtersRef (step s (Elapse d)) = filtersRef s \<and>
              filters_of (step s (Elapse d)) = filters_of s" for d
    by (simp add: elapse_def filters_of_def split: option.splits)
  have unmount: "eqOn (step s Unmount) = eqOn s \<and> filtersRef (step s Unmount) = filtersRef s \<and>
                 filters_of (step s Unmount) = filters_of s"
    by (simp add: cleanup_def filters_of_def stop_source_def update_source_def Let_def
        split: option.splits sum.splits)
  from assms click settle time unmount show ?thesis by blast
qed

lemma eqOn_loadAudio_decoded: "eqOn (loadAudio_decoded r s) = eqOn s"
  by (simp add: loadAudio_decoded_def Let_def split: sum.splits option.splits prod.splits)

lemma eqOn_step: "e \<noteq> ToggleClick \<Longrightarrow> eqOn (step s e) = eqOn s"
proof (cases e)
  case (FetchSettled r)
  then show ?thesis by (simp add: loadAudio_fetched_def split: sum.splits)
next
  case (DecodeSettled r)
  then show ?thesis by (simp add: eqOn_loadAudio_decoded)
next
  case ToggleClick
  assume "e \<noteq> ToggleClick"
  with ToggleClick show ?thesis by simp
next
  case PlayClick
  then have "e = PlayClick \<or> (\<exists>refusal. e = ResumeSettled refusal) \<or> (\<exists>d. e = Elapse d) \<or>
    e = Unmount" by simp
  from step_frame [OF this, of s] show ?thesis by blast
next
  case (ResumeSettled refusal)
  then have "e = PlayClick \<or> (\<exists>refusal. e = ResumeSettled refusal) \<or> (\<exists>d. e = Elapse d) \<or>
    e = Unmount" by simp
  from step_frame [OF this, of s] show ?thesis by blast
next
  case (Elapse d)
  then have "e = PlayClick \<or> (\<exists>refusal. e = ResumeSettled refusal) \<or> (\<exists>d. e = Elapse d) \<or>
    e = Unmount" by simp
  from step_frame [OF this, of s] show ?thesis by blast
next
  case Unmount
  then have "e = PlayClick \<or> (\<exists>refusal. e = ResumeSettled refusal) \<or> (\<exists>d. e = Elapse d) \<or>
    e = Unmount" by simp
  from step_frame [OF this, of s] show ?thesis by blast
qed

lemma eqOn_no_toggle: "ToggleClick \<notin> set evs \<Longrightarrow> eqOn (run evs) = False"
proof (induction evs rule: rev_induct)
  case Nil
  show ?case by (simp add: run_def Page_mounted_def)
next
  case (snoc e evs)
  then have "e \<noteq> ToggleClick" "eqOn (run evs) = False" by auto
  then show ?case by (simp add: run_snoc eqOn_step)
qed

text \<open>
  C3. In every run, when the decoder delivers a buffer to a mounted page (a successful
  load), the page holds exactly six filters, numbered 0 to 5 in \<open>filtersRef\<close>: each is
  a peaking filter with Q 1 at its frequency of 60, 150, 250, 1000, 4000 and 15000 Hz, in
  this order. The connections of the context are then exactly filter 0 to filter 1, on to
  filter 5, and filter 5 to the destination, each made once.
\<close>

theorem C3_chain_built:
  assumes "s = run evs" and "loading s = Decoding" and "mounted s"
  shows "filtersRef (loadAudio_decoded (Inr buffer) s) = [0, 1, 2, 3, 4, 5] \<and>
         map (\<lambda>b. (flt_type b, param_value (flt_frequency b), param_value (flt_Q b)))
           (filters_of (loadAudio_decoded (Inr buffer) s)) =
           [(Peaking, 60, 1), (Peaking, 150, 1), (Peaking, 250, 1), (Peaking, 1000, 1),
            (Peaking, 4000, 1), (Peaking, 15000, 1)] \<and>
         connections_of (loadAudio_decoded (Inr buffer) s) =
           [(FilterNode 0, FilterNode 1), (FilterNode 1, FilterNode 2),
            (FilterNode 2, FilterNode 3), (FilterNode 3, FilterNode 4),
            (FilterNode 4, FilterNode 5), (FilterNode 5, Destination)] \<and>
         bufferRef (loadAudio_decoded (Inr buffer) s) = Some buffer \<and>
         loading (loadAudio_decoded (Inr buffer) s) = Settled"
proof -
  have inv: "wf s" unfolding assms(1) by (rule wf_run)
  from decoding_fresh(1) [OF inv assms(2)] obtain ctx where
    ctx: "audioContextRef s = Some ctx" "ctx_filters ctx = []" "ctx_connections ctx = []"
    by blast
  show ?thesis
    unfolding loadAudio_decoded_fresh [OF assms(3) ctx]
    by (simp add: filters_of_def connections_of_def built_filters_def chain_edges_def freqs_def)
qed

theorem C3_chain_built_witness:
  "loading (run [FetchSettled (Inr Suspended)]) = Decoding \<and>
   mounted (run [FetchSettled (Inr Suspended)]) \<and>
   filtersRef (loadAudio_decoded (Inr (AudioBuffer 0)) (run [FetchSettled (Inr Suspended)])) =
     [0, 1, 2, 3, 4, 5] \<and>
   connections_of (loadAudio_decoded (Inr (AudioBuffer 0)) (run [FetchSettled (Inr Suspended)])) =
     [(FilterNode 0, FilterNode 1), (FilterNode 1, FilterNode 2), (FilterNode 2, FilterNode 3),
      (FilterNode 3, FilterNode 4), (FilterNode 4, FilterNode 5), (FilterNode 5, Destination)]"
  using C3_chain_built [of "run [FetchSettled (Inr Suspended)]" "[FetchSettled (Inr Suspended)]"
      "AudioBuffer 0"]
  by (simp add: run_def Page_mounted_def loadAudio_fetched_def)

text \<open>
  C10. When the chain is built, each of the six gains has the value 0 and no automation
  scheduled, which is the flat curve the chart draws for a flag that is off; in a run
  with no click on the EQ toggle so far the chart's series and the filters' gains are
  the same six zeros.
\<close>

theorem C10_initial_gains:
  assumes "s = run evs" and "loading s = Decoding" and "mounted s"
  shows "map flt_gain (filters_of (loadAudio_decoded (Inr buffer) s)) =
           replicate 6 \<lparr>param_value = 0, param_events = []\<rparr> \<and>
         map (\<lambda>b. param_value (flt_gain b)) (filters_of (loadAudio_decoded (Inr buffer) s)) =
           EQGraph_data False \<and>
         (ToggleClick \<notin> set evs \<longrightarrow>
            map snd (chart_series (loadAudio_decoded (Inr buffer) s)) =
            map (\<lambda>b. param_value (flt_gain b)) (filters_of (loadAudio_decoded (Inr buffer) s)))"
proof -
  have inv: "wf s" unfolding assms(1) by (rule wf_run)
  from decoding_fresh(1) [OF inv assms(2)] obtain ctx where
    ctx: "audioContextRef s = Some ctx" "ctx_filters ctx = []" "ctx_connections ctx = []"
    by blast
  have gains: "map flt_gain (filters_of (loadAudio_decoded (Inr buffer) s)) =
                 replicate 6 \<lparr>param_value = 0, param_events = []\<rparr>"
    unfolding loadAudio_decoded_fresh [OF assms(3) ctx]
    by (simp add: filters_of_def built_filters_def freqs_def numeral_eq_Suc)
  have vals: "map (\<lambda>b. param_value (flt_gain b)) (filters_of (loadAudio_decoded (Inr buffer) s)) =
                EQGraph_data False"
    unfolding loadAudio_decoded_fresh [OF assms(3) ctx]
    by (simp add: filters_of_def built_filters_def freqs_def EQGraph_data_def flatData_def)
  have chart: "map snd (chart_series (loadAudio_decoded (Inr buffer) s)) = EQGraph_data False"
    if "ToggleClick \<notin> set evs"
    using eqOn_no_toggle [OF that]
    by (simp add: chart_series_def eqOn_loadAudio_decoded assms(1) labels_def EQGraph_data_def
        flatData_def)
  from gains vals chart show ?thesis by simp
qed

theorem C10_initial_gains_witness:
  "loading (run [PlayClick, ResumeSettled None, FetchSettled (Inr Running)]) = Decoding \<and>
   mounted (run [PlayClick, ResumeSettled None, FetchSettled (Inr Running)]) \<and>
   ToggleClick \<notin> set [PlayClick, ResumeSettled None, FetchSettled (Inr Running)] \<and>
   map snd (chart_series (loadAudio_decoded (Inr (AudioBuffer 0))
      (run [PlayClick, ResumeSettled None, FetchSettled (Inr Running)]))) = [0, 0, 0, 0, 0, 0] \<and>
   map (\<lambda>b. param_value (flt_gain b)) (filters_of (loadAudio_decoded (Inr (AudioBuffer 0))
      (run [PlayClick, ResumeSettled None, FetchSettled (Inr Running)]))) = [0, 0, 0, 0, 0, 0]"
  using C10_initial_gains [of "run [PlayClick, ResumeSettled None, FetchSettled (Inr Running)]"
      "[PlayClick, ResumeSettled None, FetchSettled (Inr Running)]" "AudioBuffer 0"]
  by (simp add: run_def Page_mounted_def loadAudio_fetched_def togglePlay_begin_def
      EQGraph_data_def flatData_def)

subsection \<open>On and off again\<close>

text \<open>
  C4. In every run with the chain built, setting the flag to true and then to false
  raises no error and leaves, on each of the six filters' gains, a last scheduled command
  whose target is 0, the flat curve's value.
\<close>

theorem C4_round_trip:
  assumes "s = run evs" and "filtersRef s \<noteq> []"
  shows "map (\<lambda>b. latest_target (flt_gain b))
           (filters_of (snd (setEqOn False (snd (setEqOn True s))))) =
         [Some 0, Some 0, Some 0, Some 0, Some 0, Some 0] \<and>
         map Some (EQGraph_data False) = [Some 0, Some 0, Some 0, Some 0, Some 0, Some 0] \<and>
         fst (setEqOn True s) = None \<and> fst (setEqOn False (snd (setEqOn True s))) = None"
proof -
  define s1 where "s1 = snd (setEqOn True s)"
  have inv: "wf s" unfolding assms(1) by (rule wf_run)
  from inv assms(2) obtain ctx where ctx: "audioContextRef s = Some ctx"
    by (cases "audioContextRef s") (simp_all add: wf_def)
  have first: "fst (setEqOn True s) = None \<and> eqOn s1 \<and> filtersRef s1 \<noteq> [] \<and>
               audioContextRef s1 \<noteq> None"
  proof (cases "eqOn s")
    case True
    with assms(2) ctx show ?thesis by (simp add: s1_def setEqOn_def)
  next
    case False
    then have "True \<noteq> eqOn s" by simp
    from setEqOn_ready [OF inv ctx assms(2) this] assms(2) show ?thesis
      by (simp add: s1_def)
  qed
  have inv1: "wf s1" unfolding s1_def by (rule wf_setEqOn [OF inv])
  from first obtain ctx1 where ctx1: "audioContextRef s1 = Some ctx1" by auto
  obtain a b c d e f where six: "ctx_filters ctx1 = [a, b, c, d, e, f]"
    using six_filters [OF inv1 ctx1] first by blast
  have change: "False \<noteq> eqOn s1" using first by simp
  have second: "setEqOn False s1 =
      (None, s1\<lparr>eqOn := False,
         audioContextRef := Some (ctx1\<lparr>ctx_filters :=
           map2 (\<lambda>b target.
                   b\<lparr>flt_gain := setTargetAtTime target (currentTime ctx1) 0.12 (flt_gain b)\<rparr>)
             (ctx_filters ctx1) (gains_for False)\<rparr>)\<rparr>)"
    using setEqOn_ready [OF inv1 ctx1 _ change] first by blast
  have "map (\<lambda>b. latest_target (flt_gain b)) (filters_of (snd (setEqOn False s1))) =
        [Some 0, Some 0, Some 0, Some 0, Some 0, Some 0]"
    unfolding second
    by (simp add: filters_of_def six gains_for_def setTargetAtTime_def latest_target_def)
  moreover have "fst (setEqOn False s1) = None" unfolding second by simp
  ultimately show ?thesis
    using first by (simp add: s1_def EQGraph_data_def flatData_def)
qed

theorem C4_round_trip_witness:
  "filtersRef (run [FetchSettled (Inr Suspended), DecodeSettled (Inr (AudioBuffer 0))]) \<noteq> [] \<and>
   map (\<lambda>b. param_events (flt_gain b))
     (filters_of (snd (setEqOn False (snd (setEqOn True
        (run [FetchSettled (Inr Suspended), DecodeSettled (Inr (AudioBuffer 0))])))))) =
     [[SetTargetAtTime 12 0 0.12, SetTargetAtTime 0 0 0.12],
      [SetTargetAtTime 10 0 0.12, SetTargetAtTime 0 0 0.12],
      [SetTargetAtTime 4 0 0.12, SetTargetAtTime 0 0 0.12],
      [SetTargetAtTime (-6) 0 0.12, SetTargetAtTime 0 0 0.12],
      [SetTargetAtTime (-8) 0 0.12, SetTargetAtTime 0 0 0.12],
      [SetTargetAtTime (-12) 0 0.12, SetTargetAtTime 0 0 0.12]] \<and>
   map (\<lambda>b. latest_target (flt_gain b))
     (filters_of (snd (setEqOn False (snd (setEqOn True
        (run [FetchSettled (Inr Suspended), DecodeSettled (Inr (AudioBuffer 0))])))))) =
     [Some 0, Some 0, Some 0, Some 0, Some 0, Some 0]"
  using C4_round_trip [of "run [FetchSettled (Inr Suspended), DecodeSettled (Inr (AudioBuffer 0))]"
      "[FetchSettled (Inr Suspended), DecodeSettled (Inr (AudioBuffer 0))]"]
  by (simp add: run_loaded setEqOn_def eqOn_effect_def gains_for_def update_filter_def
      built_filters_def freqs_def setTargetAtTime_def filters_of_def)

subsection \<open>Guards\<close>

lemma wf_ref: "wf s \<Longrightarrow> (sourceRef s \<noteq> None) = isPlaying s"
  by (simp add: wf_def)

lemma wf_unbuilt:
  assumes "wf s" "audioContextRef s = None \<or> bufferRef s = None \<or> filtersRef s = []"
  shows "filtersRef s = []" "sourceRef s = None" "\<not> isPlaying s" "filters_of s = []"
    "sources_of s = []" "connections_of s = []" "bufferRef s = None" "pending_resumes s = []"
  using assms
  by (cases "audioContextRef s"; cases "filtersRef s = []";
      simp add: wf_def filters_of_def sources_of_def connections_of_def)+

lemma wf_built:
  assumes "wf s" "filtersRef s \<noteq> []"
  shows "\<exists>ctx buffer. audioContextRef s = Some ctx \<and> bufferRef s = Some buffer"
  using assms by (cases "audioContextRef s"; cases "bufferRef s"; simp add: wf_def)


lemma eqOn_effect_guard:
  "audioContextRef s = None \<or> filtersRef s = [] \<Longrightarrow> eqOn_effect s = (None, s)"
  by (auto simp: eqOn_effect_def split: option.splits)

lemma mount_effect_idle: "eqOn_effect Page_mounted = (None, Page_mounted)"
  by (simp add: eqOn_effect_guard Page_mounted_def)

lemma setEqOn_guard:
  "audioContextRef s = None \<or> filtersRef s = [] \<Longrightarrow> setEqOn v s = (None, s\<lparr>eqOn := v\<rparr>)"
  by (cases "v = eqOn s") (simp_all add: setEqOn_def eqOn_effect_guard)

lemma failed_step:
  assumes "loading s = Settled" "filtersRef s = []" "pending_resumes s = []"
  shows "loading (step s ev) = Settled \<and> filtersRef (step s ev) = [] \<and>
         pending_resumes (step s ev) = [] \<and> console_errors (step s ev) = console_errors s"
proof (cases ev)
  case PlayClick
  with assms show ?thesis by (simp add: togglePlay_begin_guard)
next
  case ToggleClick
  with assms show ?thesis by (simp add: setEqOn_guard)
next
  case (Elapse d)
  with assms show ?thesis by (simp add: elapse_def split: option.splits)
next
  case Unmount
  with assms show ?thesis by (simp add: cleanup_def Let_def split: option.splits)
qed (simp_all add: assms)

lemma failed_foldl:
  "loading s = Settled \<Longrightarrow> filtersRef s = [] \<Longrightarrow> pending_resumes s = [] \<Longrightarrow>
   loading (foldl step s evs) = Settled \<and> filtersRef (foldl step s evs) = [] \<and>
   console_errors (foldl step s evs) = console_errors s"
proof (induction evs arbitrary: s)
  case Nil
  then show ?case by simp
next
  case (Cons ev evs)
  from failed_step [OF Cons.prems, of ev] Cons.IH [of "step s ev"] show ?case by simp
qed

lemma run_append: "run (evs @ ev # later) = foldl step (step (run evs) ev) later"
  by (simp add: run_def)

lemma run_app: "run (evs @ later) = foldl step (run evs) later"
  by (simp add: run_def)

lemmas play_defs =
  togglePlay_def togglePlay_begin_def togglePlay_resumed_def resume_def
  createBufferSource_def update_source_def connect_def start_source_def stop_source_def

lemma run_playing:
  "run [FetchSettled (Inr Suspended), DecodeSettled (Inr (AudioBuffer 0)), PlayClick, ResumeSettled None] =
     \<lparr>eqOn = False, isPlaying = True,
      audioContextRef = Some \<lparr>ctx_state = Running, currentTime = 0,
        ctx_filters = built_filters,
        ctx_sources = [\<lparr>src_buffer = Some (AudioBuffer 0), src_loop = True,
                        src_started = True, src_stopped = False\<rparr>],
        ctx_connections = chain_edges @ [(SourceNode 0, FilterNode 0)]\<rparr>,
      sourceRef = Some 0, filtersRef = [0, 1, 2, 3, 4, 5], bufferRef = Some (AudioBuffer 0),
      mounted = True, loading = Settled, console_errors = [], pending_resumes = []\<rparr>"
  using run_app [of "[FetchSettled (Inr Suspended), DecodeSettled (Inr (AudioBuffer 0))]"
      "[PlayClick, ResumeSettled None]"]
  by (simp add: run_loaded play_defs)

text \<open>
  C5. In every run, a call of \<^verbatim>\<open>togglePlay\<close> while the context, the decoded buffer or
  the filter chain is missing resolves to undefined, raises nothing and leaves the page
  as it was; the page then holds no source node, and is not playing. After a decode
  failure the error is logged, and whatever happens later, \<^verbatim>\<open>togglePlay\<close> still
  leaves the page as it was and setting the flag changes the flag and nothing else,
  with no error: no filter, source or connection is ever made.
\<close>

theorem C5_guards:
  assumes "s = run evs" and "s' = run (evs @ DecodeSettled (Inl e) # later)"
  shows "(audioContextRef s = None \<or> bufferRef s = None \<or> filtersRef s = [] \<longrightarrow>
            togglePlay refusal s = (Inr Undefined, s) \<and> sourceRef s = None \<and>
            \<not> isPlaying s \<and> sources_of s = []) \<and>
         (loading s = Decoding \<longrightarrow>
            togglePlay refusal s' = (Inr Undefined, s') \<and>
            setEqOn v s' = (None, s'\<lparr>eqOn := v\<rparr>) \<and>
            sourceRef s' = None \<and> \<not> isPlaying s' \<and> bufferRef s' = None \<and>
            filters_of s' = [] \<and> sources_of s' = [] \<and> connections_of s' = [] \<and>
            e \<in> set (console_errors s'))"
proof (intro conjI impI)
  assume unbuilt: "audioContextRef s = None \<or> bufferRef s = None \<or> filtersRef s = []"
  have inv: "wf s" unfolding assms(1) by (rule wf_run)
  show "togglePlay refusal s = (Inr Undefined, s)" by (rule togglePlay_guard [OF unbuilt])
  show "sourceRef s = None" "\<not> isPlaying s" "sources_of s = []"
    by (rule wf_unbuilt [OF inv unbuilt])+
next
  assume decoding: "loading s = Decoding"
  have inv: "wf s" unfolding assms(1) by (rule wf_run)
  have inv': "wf s'" unfolding assms(2) by (rule wf_run)
  define s1 where "s1 = loadAudio_decoded (Inl e) s"
  have s1: "loading s1 = Settled" "filtersRef s1 = []" "pending_resumes s1 = []"
    "e \<in> set (console_errors s1)"
    using decoding_fresh(2) [OF inv decoding] wf_unbuilt(8) [OF inv]
    by (simp_all add: s1_def loadAudio_decoded_def)
  have s': "s' = foldl step s1 later"
    unfolding assms(2) run_append s1_def using decoding by (simp add: assms(1))
  from failed_foldl [OF s1(1,2,3), of later] s1(4)
  have stuck: "filtersRef s' = []" "e \<in> set (console_errors s')" by (simp_all add: s')
  then have unbuilt: "audioContextRef s' = None \<or> bufferRef s' = None \<or> filtersRef s' = []"
    by simp
  show "togglePlay refusal s' = (Inr Undefined, s')" by (rule togglePlay_guard [OF unbuilt])
  show "setEqOn v s' = (None, s'\<lparr>eqOn := v\<rparr>)" by (rule setEqOn_guard) (simp add: stuck)
  show "sourceRef s' = None" "\<not> isPlaying s'" "bufferRef s' = None" "filters_of s' = []"
    "sources_of s' = []" "connections_of s' = []"
    by (rule wf_unbuilt [OF inv' unbuilt])+
  show "e \<in> set (console_errors s')" by (rule stuck)
qed


theorem C5_guards_witness:
  "filtersRef (run [FetchSettled (Inr Suspended)]) = [] \<and>
   loading (run [FetchSettled (Inr Suspended)]) = Decoding \<and>
   togglePlay None (run [FetchSettled (Inr Suspended)]) =
     (Inr Undefined, run [FetchSettled (Inr Suspended)]) \<and>
   togglePlay None
     (run ([FetchSettled (Inr Suspended)] @
        DecodeSettled (Inl EncodingError) # [PlayClick, ResumeSettled None, ToggleClick])) =
     (Inr Undefined,
      run ([FetchSettled (Inr Suspended)] @
        DecodeSettled (Inl EncodingError) # [PlayClick, ResumeSettled None, ToggleClick])) \<and>
   sources_of
     (run ([FetchSettled (Inr Suspended)] @
        DecodeSettled (Inl EncodingError) # [PlayClick, ResumeSettled None, ToggleClick])) = [] \<and>
   EncodingError \<in> set (console_errors
     (run ([FetchSettled (Inr Suspended)] @
        DecodeSettled (Inl EncodingError) # [PlayClick, ResumeSettled None, ToggleClick])))"
  using C5_guards [of "run [FetchSettled (Inr Suspended)]" "[FetchSettled (Inr Suspended)]"
      "run ([FetchSettled (Inr Suspended)] @
         DecodeSettled (Inl EncodingError) # [PlayClick, ResumeSettled None, ToggleClick])"
      EncodingError "[PlayClick, ResumeSettled None, ToggleClick]" None True]
  by (simp add: run_def Page_mounted_def loadAudio_fetched_def)

subsection \<open>Transport and curve are independent\<close>


subsection \<open>The curve drives the chart and the filters\<close>


lemma gain_goal_target: "gain_goal (setTargetAtTime target start tc p) = target"
  by (simp add: gain_goal_def latest_target_def setTargetAtTime_def)









subsection \<open>The session reference\<close>


subsection \<open>Starting and stopping playback\<close>

text \<open>
  C6 says that a call of \<^verbatim>\<open>togglePlay\<close> on a ready page that is not playing makes a
  session and marks the page playing. The call first awaits \<^verbatim>\<open>ctx.resume()\<close>; when
  the platform refuses, or the page has been unmounted (the context closed) while the
  call waited, the promise rejects, no source is made and the page stays not playing.
\<close>

theorem C6_resume_refused_counterexample:
  "filtersRef (run [FetchSettled (Inr Suspended), DecodeSettled (Inr (AudioBuffer 0))]) \<noteq> [] \<and>
   \<not> isPlaying (run [FetchSettled (Inr Suspended), DecodeSettled (Inr (AudioBuffer 0))]) \<and>
   togglePlay (Some NotAllowedError)
     (run [FetchSettled (Inr Suspended), DecodeSettled (Inr (AudioBuffer 0))]) =
     (Inl NotAllowedError, run [FetchSettled (Inr Suspended), DecodeSettled (Inr (AudioBuffer 0))]) \<and>
   sources_of (run [FetchSettled (Inr Suspended), DecodeSettled (Inr (AudioBuffer 0))]) = [] \<and>
   \<not> isPlaying (run [FetchSettled (Inr Suspended), DecodeSettled (Inr (AudioBuffer 0)),
     PlayClick, Unmount, ResumeSettled None]) \<and>
   sourceRef (run [FetchSettled (Inr Suspended), DecodeSettled (Inr (AudioBuffer 0)),
     PlayClick, Unmount, ResumeSettled None]) = None \<and>
   sources_of (run [FetchSettled (Inr Suspended), DecodeSettled (Inr (AudioBuffer 0)),
     PlayClick, Unmount, ResumeSettled None]) = []"
  by (simp add: load_defs play_defs sources_of_def cleanup_def)

text \<open>
  C6, amended. In every run with the chain built: a call of \<^verbatim>\<open>togglePlay\<close> while not
  playing changes nothing and waits for \<^verbatim>\<open>ctx.resume()\<close>, keeping the decoded buffer.
  When the resume is allowed on a context that is not closed, the call then resolves:
  the context runs, one new source node has been added after the existing ones, holding
  the buffer the call kept, with \<open>loop\<close> true and started, connected to filter 0, and the
  page holds it in \<open>sourceRef\<close> and is playing. When the resume is refused or the context
  is closed, the call rejects and the page is as it was. A call while playing resolves at
  once, stops the source that \<open>sourceRef\<close> holds, clears the reference and leaves the
  page not playing, with the connections as they were.
\<close>

theorem C6_toggle:
  assumes "s = run evs" and "filtersRef s \<noteq> []"
  shows "(\<not> isPlaying s \<longrightarrow>
            (\<exists>kept. bufferRef s = Some kept \<and> togglePlay_begin s = (Awaiting kept, s))) \<and>
         (state_of s \<noteq> Some Closed \<longrightarrow>
            fst (togglePlay_resumed None buffer s) = Inr Undefined \<and>
            isPlaying (snd (togglePlay_resumed None buffer s)) \<and>
            sourceRef (snd (togglePlay_resumed None buffer s)) = Some (length (sources_of s)) \<and>
            sources_of (snd (togglePlay_resumed None buffer s)) =
              sources_of s @ [\<lparr>src_buffer = Some buffer, src_loop = True, src_started = True,
                               src_stopped = False\<rparr>] \<and>
            connections_of (snd (togglePlay_resumed None buffer s)) =
              connections_of s @ [(SourceNode (length (sources_of s)), FilterNode 0)] \<and>
            state_of (snd (togglePlay_resumed None buffer s)) = Some Running) \<and>
         (\<not> isPlaying s \<and> state_of s \<noteq> Some Closed \<longrightarrow>
            fst (togglePlay None s) = Inr Undefined \<and>
            isPlaying (snd (togglePlay None s)) \<and>
            sourceRef (snd (togglePlay None s)) = Some (length (sources_of s)) \<and>
            sources_of (snd (togglePlay None s)) =
              sources_of s @ [\<lparr>src_buffer = bufferRef s, src_loop = True, src_started = True,
                               src_stopped = False\<rparr>] \<and>
            connections_of (snd (togglePlay None s)) =
              connections_of s @ [(SourceNode (length (sources_of s)), FilterNode 0)] \<and>
            state_of (snd (togglePlay None s)) = Some Running \<and>
            bufferRef s \<noteq> None \<and> filtersRef s = [0, 1, 2, 3, 4, 5]) \<and>
         (refusal \<noteq> None \<or> state_of s = Some Closed \<longrightarrow>
            (\<exists>e. togglePlay_resumed refusal buffer s = (Inl e, s)) \<and>
            (\<not> isPlaying s \<longrightarrow> (\<exists>e. togglePlay refusal s = (Inl e, s)))) \<and>
         (isPlaying s \<longrightarrow>
            fst (togglePlay_begin s) = Resolved Undefined \<and>
            snd (togglePlay_begin s) = snd (togglePlay refusal s) \<and>
            fst (togglePlay refusal s) = Inr Undefined \<and>
            \<not> isPlaying (snd (togglePlay refusal s)) \<and>
            sourceRef (snd (togglePlay refusal s)) = None \<and>
            (\<exists>src. sourceRef s = Some src \<and> src < length (sources_of s) \<and>
               sources_of (snd (togglePlay refusal s)) =
                 (sources_of s)[src := (sources_of s ! src)\<lparr>src_stopped := True\<rparr>]) \<and>
            connections_of (snd (togglePlay refusal s)) = connections_of s)"
proof (intro conjI impI)
  have inv: "wf s" unfolding assms(1) by (rule wf_run)
  from wf_built [OF inv assms(2)] obtain ctx held where
    ready: "audioContextRef s = Some ctx" "bufferRef s = Some held" by blast
  note facts = wf_readyD [OF inv ready(1) assms(2)]
  have refs: "filtersRef s = 0 # [1, 2, 3, 4, 5]" by (simp add: facts(1))
  {
    assume idle: "\<not> isPlaying s"
    from togglePlay_begin_wait [OF ready assms(2) idle] ready(2)
    show "\<exists>kept. bufferRef s = Some kept \<and> togglePlay_begin s = (Awaiting kept, s)" by simp
  }
  {
    assume "state_of s \<noteq> Some Closed"
    then have opened: "ctx_state ctx \<noteq> Closed" by (simp add: state_of_def ready(1))
    note start = togglePlay_resumed_start [OF ready(1) refs opened, of buffer]
    show "fst (togglePlay_resumed None buffer s) = Inr Undefined" by (simp add: start)
    show "isPlaying (snd (togglePlay_resumed None buffer s))" by (simp add: start)
    show "sourceRef (snd (togglePlay_resumed None buffer s)) = Some (length (sources_of s))"
      by (simp add: start sources_of_def ready(1))
    show "sources_of (snd (togglePlay_resumed None buffer s)) =
            sources_of s @ [\<lparr>src_buffer = Some buffer, src_loop = True, src_started = True,
                             src_stopped = False\<rparr>]"
      by (simp add: start sources_of_def ready)
    show "connections_of (snd (togglePlay_resumed None buffer s)) =
            connections_of s @ [(SourceNode (length (sources_of s)), FilterNode 0)]"
      by (simp add: start sources_of_def connections_of_def ready(1))
    show "state_of (snd (togglePlay_resumed None buffer s)) = Some Running"
      by (simp add: start state_of_def)
  }
  {
    assume idle: "\<not> isPlaying s \<and> state_of s \<noteq> Some Closed"
    then have playing: "\<not> isPlaying s" and opened: "ctx_state ctx \<noteq> Closed"
      by (simp_all add: state_of_def ready(1))
    note start = togglePlay_start [OF ready refs playing opened]
    show "fst (togglePlay None s) = Inr Undefined" by (simp add: start)
    show "isPlaying (snd (togglePlay None s))" by (simp add: start)
    show "sourceRef (snd (togglePlay None s)) = Some (length (sources_of s))"
      by (simp add: start sources_of_def ready(1))
    show "sources_of (snd (togglePlay None s)) =
            sources_of s @ [\<lparr>src_buffer = bufferRef s, src_loop = True, src_started = True,
                             src_stopped = False\<rparr>]"
      by (simp add: start sources_of_def ready)
    show "connections_of (snd (togglePlay None s)) =
            connections_of s @ [(SourceNode (length (sources_of s)), FilterNode 0)]"
      by (simp add: start sources_of_def connections_of_def ready(1))
    show "state_of (snd (togglePlay None s)) = Some Running"
      by (simp add: start state_of_def)
    show "bufferRef s \<noteq> None" by (simp add: ready(2))
    show "filtersRef s = [0, 1, 2, 3, 4, 5]" by (rule facts(1))
  }
  {
    assume "refusal \<noteq> None \<or> state_of s = Some Closed"
    then have no: "ctx_state ctx = Closed \<or> refusal \<noteq> None"
      by (auto simp: state_of_def ready(1))
    show "\<exists>e. togglePlay_resumed refusal buffer s = (Inl e, s)"
      by (rule togglePlay_resumed_refused [OF ready(1) no])
    show "\<exists>e. togglePlay refusal s = (Inl e, s)" if "\<not> isPlaying s"
      by (rule togglePlay_refused [OF ready assms(2) that no])
  }
  {
    assume playing: "isPlaying s"
    with facts(4) obtain src where src: "sourceRef s = Some src" by auto
    from facts(7) [OF src] have ok: "src < length (ctx_sources ctx)"
      "src_started (ctx_sources ctx ! src)" by simp_all
    note stop = togglePlay_stop [OF ready assms(2) playing]
    note stop' = togglePlay_begin_stop [OF ready assms(2) playing]
    show "fst (togglePlay_begin s) = Resolved Undefined" by (simp add: stop')
    show "snd (togglePlay_begin s) = snd (togglePlay refusal s)" by (simp add: stop stop')
    show "fst (togglePlay refusal s) = Inr Undefined" by (simp add: stop)
    show "\<not> isPlaying (snd (togglePlay refusal s))" by (simp add: stop)
    show "sourceRef (snd (togglePlay refusal s)) = None" by (simp add: stop)
    show "\<exists>src. sourceRef s = Some src \<and> src < length (sources_of s) \<and>
            sources_of (snd (togglePlay refusal s)) =
              (sources_of s)[src := (sources_of s ! src)\<lparr>src_stopped := True\<rparr>]"
      by (simp add: stop src ok sources_of_def ready(1))
    show "connections_of (snd (togglePlay refusal s)) = connections_of s"
      by (simp add: stop src ok connections_of_def ready(1))
  }
qed

theorem C6_toggle_witness:
  "filtersRef (run [FetchSettled (Inr Suspended), DecodeSettled (Inr (AudioBuffer 0))]) \<noteq> [] \<and>
   \<not> isPlaying (run [FetchSettled (Inr Suspended), DecodeSettled (Inr (AudioBuffer 0))]) \<and>
   state_of (run [FetchSettled (Inr Suspended), DecodeSettled (Inr (AudioBuffer 0))]) \<noteq>
     Some Closed \<and>
   togglePlay_begin (run [FetchSettled (Inr Suspended), DecodeSettled (Inr (AudioBuffer 0))]) =
     (Awaiting (AudioBuffer 0),
      run [FetchSettled (Inr Suspended), DecodeSettled (Inr (AudioBuffer 0))]) \<and>
   sources_of (snd (togglePlay_resumed None (AudioBuffer 0)
     (run [FetchSettled (Inr Suspended), DecodeSettled (Inr (AudioBuffer 0))]))) =
     [\<lparr>src_buffer = Some (AudioBuffer 0), src_loop = True, src_started = True,
       src_stopped = False\<rparr>] \<and>
   isPlaying (snd (togglePlay None
     (run [FetchSettled (Inr Suspended), DecodeSettled (Inr (AudioBuffer 0))]))) \<and>
   isPlaying (run [FetchSettled (Inr Suspended), DecodeSettled (Inr (AudioBuffer 0)),
     PlayClick, ResumeSettled None]) \<and>
   sources_of (snd (togglePlay None
     (run [FetchSettled (Inr Suspended), DecodeSettled (Inr (AudioBuffer 0)), PlayClick,
        ResumeSettled None]))) =
     [\<lparr>src_buffer = Some (AudioBuffer 0), src_loop = True, src_started = True,
       src_stopped = True\<rparr>] \<and>
   Some NotAllowedError \<noteq> None \<and>
   togglePlay (Some NotAllowedError)
     (run [FetchSettled (Inr Suspended), DecodeSettled (Inr (AudioBuffer 0))]) =
     (Inl NotAllowedError, run [FetchSettled (Inr Suspended), DecodeSettled (Inr (AudioBuffer 0))])"
proof -
  have built: "filtersRef (run [FetchSettled (Inr Suspended), DecodeSettled (Inr (AudioBuffer 0))]) \<noteq> []"
    by (simp add: run_loaded)
  have idle: "\<not> isPlaying (run [FetchSettled (Inr Suspended), DecodeSettled (Inr (AudioBuffer 0))])"
    "state_of (run [FetchSettled (Inr Suspended), DecodeSettled (Inr (AudioBuffer 0))]) \<noteq>
      Some Closed"
    by (simp_all add: run_loaded state_of_def)
  have built': "filtersRef (run [FetchSettled (Inr Suspended), DecodeSettled (Inr (AudioBuffer 0)),
    PlayClick, ResumeSettled None]) \<noteq> []"
    by (simp add: run_playing)
  have playing: "isPlaying (run [FetchSettled (Inr Suspended), DecodeSettled (Inr (AudioBuffer 0)),
    PlayClick, ResumeSettled None])"
    by (simp add: run_playing)
  have computed: "togglePlay_begin (run [FetchSettled (Inr Suspended), DecodeSettled (Inr (AudioBuffer 0))]) =
     (Awaiting (AudioBuffer 0),
      run [FetchSettled (Inr Suspended), DecodeSettled (Inr (AudioBuffer 0))])"
    "sources_of (snd (togglePlay_resumed None (AudioBuffer 0)
     (run [FetchSettled (Inr Suspended), DecodeSettled (Inr (AudioBuffer 0))]))) =
     [\<lparr>src_buffer = Some (AudioBuffer 0), src_loop = True, src_started = True,
       src_stopped = False\<rparr>]"
    "sources_of (snd (togglePlay None
     (run [FetchSettled (Inr Suspended), DecodeSettled (Inr (AudioBuffer 0)), PlayClick,
        ResumeSettled None]))) =
     [\<lparr>src_buffer = Some (AudioBuffer 0), src_loop = True, src_started = True,
       src_stopped = True\<rparr>]"
    "togglePlay (Some NotAllowedError)
     (run [FetchSettled (Inr Suspended), DecodeSettled (Inr (AudioBuffer 0))]) =
     (Inl NotAllowedError, run [FetchSettled (Inr Suspended), DecodeSettled (Inr (AudioBuffer 0))])"
    by (simp_all add: run_loaded run_playing play_defs sources_of_def)
  from C6_toggle [OF refl built, where refusal = None and buffer = "AudioBuffer 0"] idle
  have "isPlaying (snd (togglePlay None
     (run [FetchSettled (Inr Suspended), DecodeSettled (Inr (AudioBuffer 0))])))"
    by blast
  with built idle playing computed show ?thesis by simp
qed

subsection \<open>What \<^verbatim>\<open>togglePlay\<close> returns\<close>




section \<open>Further properties of the page\<close>

text \<open>
  A click on the EQ toggle before the chain is built changes the flag and the chart, and the
  effect returns at its guard. \<^verbatim>\<open>loadAudio\<close> later builds the filters with gain 0
  and schedules nothing, and assigning the refs re-runs no effect: after such a load the
  chart plots the bass-heavy curve while every filter is flat, until the next click.
\<close>

theorem toggle_before_load:
  assumes "s = run evs" and "loading s = Decoding" and "mounted s" and "eqOn s"
  shows "map snd (chart_series (loadAudio_decoded (Inr buffer) s)) = [12, 10, 4, -6, -8, -12] \<and>
         map flt_gain (filters_of (loadAudio_decoded (Inr buffer) s)) =
           replicate 6 \<lparr>param_value = 0, param_events = []\<rparr>"
proof -
  have inv: "wf s" unfolding assms(1) by (rule wf_run)
  from decoding_fresh(1) [OF inv assms(2)] obtain ctx where
    ctx: "audioContextRef s = Some ctx" "ctx_filters ctx = []" "ctx_connections ctx = []"
    by blast
  have "map flt_gain (filters_of (loadAudio_decoded (Inr buffer) s)) =
          replicate 6 \<lparr>param_value = 0, param_events = []\<rparr>"
    unfolding loadAudio_decoded_fresh [OF assms(3) ctx]
    by (simp add: filters_of_def built_filters_def freqs_def numeral_eq_Suc)
  moreover have "map snd (chart_series (loadAudio_decoded (Inr buffer) s)) =
                   [12, 10, 4, -6, -8, -12]"
    using assms(4)
    by (simp add: chart_series_def eqOn_loadAudio_decoded labels_def EQGraph_data_def
        bassHeavyData_def)
  ultimately show ?thesis by simp
qed

theorem toggle_before_load_witness:
  "loading (run [ToggleClick, FetchSettled (Inr Suspended)]) = Decoding \<and>
   mounted (run [ToggleClick, FetchSettled (Inr Suspended)]) \<and>
   eqOn (run [ToggleClick, FetchSettled (Inr Suspended)]) \<and>
   map snd (chart_series (loadAudio_decoded (Inr (AudioBuffer 0))
     (run [ToggleClick, FetchSettled (Inr Suspended)]))) = [12, 10, 4, -6, -8, -12] \<and>
   map (\<lambda>b. latest_target (flt_gain b)) (filters_of (loadAudio_decoded (Inr (AudioBuffer 0))
     (run [ToggleClick, FetchSettled (Inr Suspended)]))) = [None, None, None, None, None, None] \<and>
   map (\<lambda>b. param_value (flt_gain b)) (filters_of (loadAudio_decoded (Inr (AudioBuffer 0))
     (run [ToggleClick, FetchSettled (Inr Suspended)]))) = [0, 0, 0, 0, 0, 0]"
  using toggle_before_load [of "run [ToggleClick, FetchSettled (Inr Suspended)]"
      "[ToggleClick, FetchSettled (Inr Suspended)]" "AudioBuffer 0"]
  by (simp add: load_defs setEqOn_def eqOn_effect_def latest_target_def filters_of_def
      chart_series_def labels_def EQGraph_data_def bassHeavyData_def)

text \<open>
  Once built, the chain stays as it was built in every run: the six filters keep their
  type, frequency and Q, and the connections that do not start at a source node are the
  six of the chain.
\<close>

theorem chain_persists:
  assumes "s = run evs" and "filtersRef s \<noteq> []"
  shows "filtersRef s = [0, 1, 2, 3, 4, 5] \<and>
         map (\<lambda>b. (flt_type b, param_value (flt_frequency b), param_value (flt_Q b)))
           (filters_of s) =
           [(Peaking, 60, 1), (Peaking, 150, 1), (Peaking, 250, 1), (Peaking, 1000, 1),
            (Peaking, 4000, 1), (Peaking, 15000, 1)] \<and>
         filter (\<lambda>e. \<not> from_source e) (connections_of s) =
           [(FilterNode 0, FilterNode 1), (FilterNode 1, FilterNode 2),
            (FilterNode 2, FilterNode 3), (FilterNode 3, FilterNode 4),
            (FilterNode 4, FilterNode 5), (FilterNode 5, Destination)]"
proof -
  have inv: "wf s" unfolding assms(1) by (rule wf_run)
  from wf_built [OF inv assms(2)] obtain ctx where ctx: "audioContextRef s = Some ctx" by blast
  note facts = wf_readyD [OF inv ctx assms(2)]
  have shape: "filter_shape =
      (\<lambda>b. (flt_type b, param_value (flt_frequency b), param_value (flt_Q b)))"
    by (rule ext) (simp add: filter_shape_def)
  from facts(1) facts(5) facts(6) show ?thesis
    by (simp add: filters_of_def connections_of_def ctx shape freqs_def chain_edges_def)
qed

theorem chain_persists_witness:
  "filtersRef (run [FetchSettled (Inr Suspended), DecodeSettled (Inr (AudioBuffer 0)),
     PlayClick, ResumeSettled None]) \<noteq> [] \<and>
   connections_of (run [FetchSettled (Inr Suspended), DecodeSettled (Inr (AudioBuffer 0)),
     PlayClick, ResumeSettled None]) =
     [(FilterNode 0, FilterNode 1), (FilterNode 1, FilterNode 2), (FilterNode 2, FilterNode 3),
      (FilterNode 3, FilterNode 4), (FilterNode 4, FilterNode 5), (FilterNode 5, Destination),
      (SourceNode 0, FilterNode 0)] \<and>
   filter (\<lambda>e. \<not> from_source e)
     (connections_of (run [FetchSettled (Inr Suspended), DecodeSettled (Inr (AudioBuffer 0)),
        PlayClick, ResumeSettled None])) =
     [(FilterNode 0, FilterNode 1), (FilterNode 1, FilterNode 2), (FilterNode 2, FilterNode 3),
      (FilterNode 3, FilterNode 4), (FilterNode 4, FilterNode 5), (FilterNode 5, Destination)]"
  using chain_persists [of "run [FetchSettled (Inr Suspended), DecodeSettled (Inr (AudioBuffer 0)),
        PlayClick, ResumeSettled None]"
      "[FetchSettled (Inr Suspended), DecodeSettled (Inr (AudioBuffer 0)), PlayClick, ResumeSettled None]"]
  by (simp add: run_playing connections_of_def chain_edges_def)

text \<open>
  Setting the flag to the value it has does nothing: a second \<open>setEqOn v\<close> after a first
  leaves the page, and so every scheduled target, as the first left it.
\<close>

lemma eqOn_effect_flag: "eqOn (snd (eqOn_effect s)) = eqOn s"
  by (simp add: eqOn_effect_def Let_def split: option.splits prod.splits)

theorem setEqOn_idempotent:
  "setEqOn v (snd (setEqOn v s)) = (None, snd (setEqOn v s)) \<and> eqOn (snd (setEqOn v s)) = v"
  by (simp add: setEqOn_def eqOn_effect_flag)

text \<open>
  In every run, whatever comes between a click and the settling of its resume,
  \<open>sourceRef\<close> holds a source exactly when \<open>isPlaying\<close> is true.
\<close>

theorem session_ref_iff: "(sourceRef (run evs) \<noteq> None) = isPlaying (run evs)"
  by (rule wf_ref [OF wf_run])

end
